theory Spec2Isabelle
  imports Complex_Main "HOL-Library.Multiset" "HOL-Library.AList"
begin

section \<open>The time-domain orchestration of \<^verbatim>\<open>phoebe/backend/backends.py\<close>\<close>

text \<open>
  The development embeds the planning, calibration, dispatch and translation code of
  \<^verbatim>\<open>backends.py\<close>. Conventions of the embedding:
  \<^item> a Python exception is a value of type \<open>error\<close>, and a function that can raise
    returns \<open>error + 'a\<close> with \<open>Inl\<close> for the exception;
  \<^item> the bundle \<^verbatim>\<open>b\<close> is a record of the lookups the code performs on it, for the one
    compute label the call was given; a lookup that raises \<^verbatim>\<open>ValueError\<close> (no such
    parameter) is \<open>None\<close>;
  \<^item> times are Python floats in the source and exact rationals here: equality, order
    and the arithmetic of \<^verbatim>\<open>linspace\<close> are the exact ones, and not-a-number does not
    occur; the columns of the legacy engine's mesh are lists of reals, for the square root
    in the length of a gradient;
  \<^item> a Python \<^verbatim>\<open>None\<close> in the place of a component label or of a time is the
    \<open>None\<close> of an option type.
\<close>

subsection \<open>Errors, work items, the bundle\<close>

datatype error =
    ValueError string
  | NotImplementedError string
  | KeyError string
  | IndexError string

text \<open>The dictionary \<^verbatim>\<open>this_info\<close>: one work item.\<close>

record info =
  info_dataset :: string
  info_component :: "string option"
  info_kind :: string
  info_needs_mesh :: bool
  info_times :: "rat option list"

text \<open>
  The bundle, as the functions of this file read it. \<open>b_obs_kind\<close> is
  \<^verbatim>\<open>obs_ps.kind\<close> of the filtered dataset parameters (a parameter set without
  parameters has a kind that is none of the known ones), \<open>b_get_times\<close> is
  \<^verbatim>\<open>obs_ps.get_value(qualifier=timequalifier, component=component, unit=u.d)\<close>, and
  \<open>b_exptime\<close> is the exposure time in days (its sign is the same in every unit).
\<close>

record Bundle =
  b_datasets :: "string list"
  b_compute_kind :: string
  b_enabled :: "string \<Rightarrow> bool option"
  b_stars :: "string list"
  b_meshables :: "string list"
  b_obs_kind :: "string \<Rightarrow> string option \<Rightarrow> string"
  b_get_times :: "string \<Rightarrow> string option \<Rightarrow> string \<Rightarrow> rat list option"
  b_lc_method :: "string \<Rightarrow> string option"
  b_rv_method :: "string \<Rightarrow> string option \<Rightarrow> string option"
  b_exptime :: "string \<Rightarrow> rat option"
  b_fti_method :: "string \<Rightarrow> string option"
  b_fti_oversample :: "string \<Rightarrow> int option"
  b_pblum_ref :: "string \<Rightarrow> string \<Rightarrow> string option"

definition backends_that_support_protomesh :: "string list" where
  "backends_that_support_protomesh = [''phoebe'', ''legacy'']"

definition backends_that_support_automesh :: "string list" where
  "backends_that_support_automesh = [''phoebe'', ''legacy'']"

definition backends_that_require_meshing :: "string list" where
  "backends_that_require_meshing = [''phoebe'', ''legacy'']"

text \<open>\<^verbatim>\<open>b.get_value(...)\<close>: the value, or the \<^verbatim>\<open>ValueError\<close> of a missing parameter.\<close>

definition get_value :: "string \<Rightarrow> 'a option \<Rightarrow> error + 'a" where
  "get_value qualifier v = (case v of None \<Rightarrow> Inl (ValueError qualifier) | Some x \<Rightarrow> Inr x)"

subsection \<open>\<^verbatim>\<open>_needs_mesh\<close>\<close>

text \<open>
  The four tests of \<^verbatim>\<open>_needs_mesh\<close> in the source's order. Python's \<^verbatim>\<open>and\<close> and
  \<^verbatim>\<open>or\<close> evaluate their right operand only when the left one does not decide, so the
  method lookups happen (and can raise) only behind the tests on the kinds.
\<close>

definition needs_mesh :: "Bundle \<Rightarrow> string \<Rightarrow> string \<Rightarrow> string option \<Rightarrow> error + bool" where
  "needs_mesh b dataset kind component =
     (let compute_kind = b_compute_kind b in
      if compute_kind \<notin> set backends_that_require_meshing then Inr False
      else if kind \<notin> set [''mesh'', ''lc'', ''rv''] then Inr False
      else
        (case (if kind = ''lc'' \<and> compute_kind = ''phoebe''
               then (case get_value ''lc_method'' (b_lc_method b dataset) of
                       Inl e \<Rightarrow> Inl e
                     | Inr m \<Rightarrow> Inr (m = ''analytical''))
               else Inr False) of
           Inl e \<Rightarrow> Inl e
         | Inr True \<Rightarrow> Inr False
         | Inr False \<Rightarrow>
            (case (if kind = ''rv''
                   then (if compute_kind = ''legacy'' then Inr True
                         else (case get_value ''rv_method'' (b_rv_method b dataset component) of
                                 Inl e \<Rightarrow> Inl e
                               | Inr m \<Rightarrow> Inr (m = ''dynamical'')))
                   else Inr False) of
               Inl e \<Rightarrow> Inl e
             | Inr True \<Rightarrow> Inr False
             | Inr False \<Rightarrow> Inr True)))"

subsection \<open>Exceptions and loops\<close>

definition bind_err :: "error + 'a \<Rightarrow> ('a \<Rightarrow> error + 'b) \<Rightarrow> error + 'b" where
  "bind_err m f = (case m of Inl e \<Rightarrow> Inl e | Inr x \<Rightarrow> f x)"

text \<open>A \<^verbatim>\<open>for\<close> loop whose body can raise: the first exception ends the loop.\<close>

fun fold_err :: "('a \<Rightarrow> 's \<Rightarrow> error + 's) \<Rightarrow> 'a list \<Rightarrow> 's \<Rightarrow> error + 's" where
  "fold_err f [] s = Inr s"
| "fold_err f (x # xs) s = (case f x s of Inl e \<Rightarrow> Inl e | Inr s' \<Rightarrow> fold_err f xs s')"

text \<open>The same for a list comprehension whose element expression can raise.\<close>

fun map_err :: "('a \<Rightarrow> error + 'b) \<Rightarrow> 'a list \<Rightarrow> error + 'b list" where
  "map_err f [] = Inr []"
| "map_err f (x # xs) =
     (case f x of Inl e \<Rightarrow> Inl e
      | Inr y \<Rightarrow> (case map_err f xs of Inl e \<Rightarrow> Inl e | Inr ys \<Rightarrow> Inr (y # ys)))"

text \<open>\<^verbatim>\<open>xs.index(x)\<close>: the first position of \<open>x\<close>; Python raises \<^verbatim>\<open>ValueError\<close> when there is none.\<close>

fun index_of :: "'a list \<Rightarrow> 'a \<Rightarrow> nat option" where
  "index_of [] x = None"
| "index_of (y # ys) x = (if y = x then Some 0 else map_option Suc (index_of ys x))"

text \<open>\<^verbatim>\<open>infos[ind].append(this_info)\<close>, with the \<^verbatim>\<open>IndexError\<close> of a position out of range.\<close>

definition append_at :: "nat \<Rightarrow> 'a \<Rightarrow> 'a list list \<Rightarrow> error + 'a list list" where
  "append_at ind x xss =
     (if ind < length xss then Inr (xss[ind := xss ! ind @ [x]])
      else Inl (IndexError ''list index out of range''))"

text \<open>
  A dictionary built from (key, value) pairs, as a dict comprehension does: each key is held
  once, with the last value given for it.
\<close>

definition dict_of :: "('k \<times> 'v) list \<Rightarrow> ('k \<times> 'v) list" where
  "dict_of kvs = fold (\<lambda>(k, v) d. AList.update k v d) kvs []"

subsection \<open>Time arrays\<close>

definition timequalifier_by_kind :: "string \<Rightarrow> string" where
  "timequalifier_by_kind kind = (if kind = ''etv'' then ''time_ephems'' else ''times'')"

text \<open>
  \<^verbatim>\<open>np.linspace(start, stop, num)\<close>: \<open>num\<close> samples from \<open>start\<close>, a step of
  \<open>(stop - start) / (num - 1)\<close> apart, the last one set to \<open>stop\<close>; a single sample is
  \<open>start\<close>; a negative count is refused.
\<close>

definition linspace :: "rat \<Rightarrow> rat \<Rightarrow> int \<Rightarrow> error + rat list" where
  "linspace start stop num =
     (if num < 0 then Inl (ValueError ''Number of samples must be non-negative'')
      else if num = 0 then Inr []
      else if num = 1 then Inr [start]
      else Inr (map (\<lambda>i. start + of_nat i * ((stop - start) / of_int (num - 1)))
                    [0 ..< nat num - 1] @ [stop]))"

text \<open>The floats of a time array (the reference-epoch item alone holds \<^verbatim>\<open>None\<close>).\<close>

definition float_times :: "info \<Rightarrow> rat list" where
  "float_times i = [t. Some t \<leftarrow> info_times i]"

text \<open>
  Lines 117 to 135: the override of a non-empty time array by the times passed in, then
  the oversampling of each time over its exposure.
\<close>

definition oversample_applies :: "Bundle \<Rightarrow> bool \<Rightarrow> string \<Rightarrow> string \<Rightarrow> error + bool" where
  "oversample_applies b allow_oversample dataset kind =
     (if \<not> allow_oversample then Inr False
      else if kind \<notin> set [''lc''] then Inr False
      else bind_err (get_value ''exptime'' (b_exptime b dataset)) (\<lambda>exptime.
        if \<not> exptime > 0 then Inr False
        else bind_err (get_value ''fti_method'' (b_fti_method b dataset)) (\<lambda>m.
          Inr (m = ''oversample''))))"

definition oversampled_times :: "Bundle \<Rightarrow> string \<Rightarrow> rat list \<Rightarrow> error + rat list" where
  "oversampled_times b dataset this_times =
     bind_err (get_value ''exptime'' (b_exptime b dataset)) (\<lambda>exptime.
       bind_err (get_value ''fti_oversample'' (b_fti_oversample b dataset)) (\<lambda>exp_oversample.
         bind_err (map_err (\<lambda>t. linspace (t - exptime / 2) (t + exptime / 2) exp_oversample)
                     this_times) (\<lambda>rows.
           Inr (concat rows))))"

definition override_times :: "rat list option \<Rightarrow> rat list \<Rightarrow> rat list" where
  "override_times provided_times this_times =
     (case provided_times of
        None \<Rightarrow> this_times
      | Some p \<Rightarrow> if this_times \<noteq> [] then p else this_times)"

definition resolve_times ::
  "Bundle \<Rightarrow> rat list option \<Rightarrow> bool \<Rightarrow> string \<Rightarrow> string \<Rightarrow> rat list \<Rightarrow> error + rat list" where
  "resolve_times b provided_times allow_oversample dataset kind this_times =
     (let this_times = override_times provided_times this_times in
      bind_err (oversample_applies b allow_oversample dataset kind) (\<lambda>ov.
        if ov then oversampled_times b dataset this_times else Inr this_times))"

subsection \<open>\<^verbatim>\<open>_extract_from_bundle_by_time\<close>\<close>

type_synonym plan_state = "rat list \<times> info list list \<times> info list"

text \<open>Lines 156 to 161: one time of a work item enters the grid.\<close>

definition add_time :: "info \<Rightarrow> rat \<Rightarrow> rat list \<times> info list list \<Rightarrow> error + rat list \<times> info list list" where
  "add_time this_info tm ti =
     (case ti of (times0, infos) \<Rightarrow>
        (case index_of times0 tm of
           Some ind \<Rightarrow> bind_err (append_at ind this_info infos) (\<lambda>infos'. Inr (times0, infos'))
         | None \<Rightarrow> Inr (times0 @ [tm], infos @ [[this_info]])))"

text \<open>Lines 145 to 161: the work item of one component, and its times.\<close>

definition add_info_by_time ::
  "Bundle \<Rightarrow> string \<Rightarrow> string \<Rightarrow> rat list \<Rightarrow> string option \<Rightarrow> plan_state \<Rightarrow> error + plan_state" where
  "add_info_by_time b dataset kind this_times component st =
     (case st of (times0, infos, needed_syns) \<Rightarrow>
        bind_err (needs_mesh b dataset kind component) (\<lambda>nm.
          let this_info = \<lparr>info_dataset = dataset, info_component = component, info_kind = kind,
                           info_needs_mesh = nm, info_times = map Some this_times\<rparr>
          in bind_err (fold_err (add_time this_info) this_times (times0, infos)) (\<lambda>ti.
               Inr (fst ti, snd ti, needed_syns @ [this_info]))))"

text \<open>Lines 138 to 141: the components a resolved time array is planned for.\<close>

definition components_of :: "Bundle \<Rightarrow> string \<Rightarrow> string option \<Rightarrow> string option list" where
  "components_of b kind component =
     (if component = None \<and> kind \<in> set [''mesh''] then map Some (b_meshables b)
      else [component])"

text \<open>Lines 100 to 161: the body of the loop over the stars and \<^verbatim>\<open>None\<close>.\<close>

definition extract_component_by_time ::
  "Bundle \<Rightarrow> rat list option \<Rightarrow> bool \<Rightarrow> string \<Rightarrow> string option \<Rightarrow> plan_state \<Rightarrow> error + plan_state" where
  "extract_component_by_time b provided_times allow_oversample dataset component st =
     (let kind = b_obs_kind b dataset component in
      if component = None \<and> kind \<notin> set [''lc'', ''mesh''] then Inr st
      else
        (case b_get_times b dataset component (timequalifier_by_kind kind) of
           None \<Rightarrow> Inr st
         | Some ts \<Rightarrow>
             bind_err (resolve_times b provided_times allow_oversample dataset kind ts)
               (\<lambda>this_times.
                  if this_times \<noteq> []
                  then fold_err (add_info_by_time b dataset kind this_times)
                         (components_of b kind component) st
                  else Inr st)))"

text \<open>Lines 86 to 161: the body of the loop over the datasets.\<close>

definition extract_dataset_by_time ::
  "Bundle \<Rightarrow> rat list option \<Rightarrow> bool \<Rightarrow> string \<Rightarrow> plan_state \<Rightarrow> error + plan_state" where
  "extract_dataset_by_time b provided_times allow_oversample dataset st =
     (if dataset = ''_default'' then Inr st
      else
        (case b_enabled b dataset of
           None \<Rightarrow> Inr st
         | Some dataset_enabled \<Rightarrow>
             if \<not> dataset_enabled then Inr st
             else fold_err (extract_component_by_time b provided_times allow_oversample dataset)
                    (map Some (b_stars b) @ [None]) st))"

subsection \<open>The virtual mesh datasets\<close>

definition handle_protomesh :: "Bundle \<Rightarrow> info list \<Rightarrow> info list list \<Rightarrow> info list \<times> info list list" where
  "handle_protomesh b needed_syns infos =
     (if b_compute_kind b \<in> set backends_that_support_protomesh
      then (fold (\<lambda>component needed_syns'.
                    needed_syns' @ [\<lparr>info_dataset = ''protomesh'', info_component = Some component,
                                     info_kind = ''mesh'', info_needs_mesh = False,
                                     info_times = [None]\<rparr>])
              (b_meshables b) needed_syns, infos)
      else (needed_syns, infos))"

text \<open>Line 302: the work items the automesh takes its times from, one for each dataset.\<close>

definition needs_mesh_infos :: "info list \<Rightarrow> info list" where
  "needs_mesh_infos needed_syns =
     map snd (dict_of [(info_dataset i, i). i \<leftarrow> needed_syns,
                        info_needs_mesh i \<and> info_kind i \<notin> set [''mesh'']])"

text \<open>Lines 313 to 319: their times, without duplicates, ascending.\<close>

definition automesh_times :: "info list \<Rightarrow> rat list" where
  "automesh_times nmi = sort (remdups (concat (map float_times nmi)))"

text \<open>
  Lines 328 to 331. The argument \<^verbatim>\<open>times\<close> is the list of the grid, or \<^verbatim>\<open>False\<close> (here
  \<open>None\<close>) from the planner by dataset; \<^verbatim>\<open>if times:\<close> holds for a non-empty list only.
\<close>

definition register_automesh ::
  "rat list option \<Rightarrow> info \<Rightarrow> rat list \<Rightarrow> info list list \<Rightarrow> error + info list list" where
  "register_automesh times0 this_info this_times infos =
     (case times0 of
        None \<Rightarrow> Inr infos
      | Some ts \<Rightarrow>
          if ts = [] then Inr infos
          else fold_err (\<lambda>time infos'.
                 (case index_of ts time of
                    None \<Rightarrow> Inl (ValueError ''is not in list'')
                  | Some ind \<Rightarrow> append_at ind this_info infos'))
               this_times infos)"

definition handle_automesh ::
  "Bundle \<Rightarrow> info list \<Rightarrow> info list list \<Rightarrow> rat list option \<Rightarrow> error + info list \<times> info list list" where
  "handle_automesh b needed_syns infos times0 =
     (if b_compute_kind b \<in> set backends_that_support_automesh
      then
        (let nmi = needs_mesh_infos needed_syns in
         fold_err (\<lambda>component acc.
             (let this_times = automesh_times nmi;
                  this_info = \<lparr>info_dataset = ''pbmesh'', info_component = Some component,
                               info_kind = ''mesh'', info_needs_mesh = True,
                               info_times = map Some this_times\<rparr>
              in bind_err (register_automesh times0 this_info this_times (snd acc)) (\<lambda>infos'.
                   Inr (fst acc @ [this_info], infos'))))
           (b_meshables b) (needed_syns, infos))
      else Inr (needed_syns, infos))"

text \<open>
  Lines 164 to 168 and 258 to 262: both planners add the protomesh and then the automesh,
  where the compute options ask for them.
\<close>

definition virtual_datasets ::
  "Bundle \<Rightarrow> bool \<Rightarrow> bool \<Rightarrow> rat list option \<Rightarrow> info list \<Rightarrow> info list list \<Rightarrow>
   error + info list \<times> info list list" where
  "virtual_datasets b protomesh pbmesh times0 needed_syns infos =
     (let ni = (if protomesh then handle_protomesh b needed_syns infos else (needed_syns, infos))
      in if pbmesh then handle_automesh b (fst ni) (snd ni) times0 else Inr ni)"

subsection \<open>\<^verbatim>\<open>_create_syns\<close>\<close>

text \<open>
  One empty container for each work item, in the order of the items. The parameters inside a
  container come from the schema functions of \<^verbatim>\<open>phoebe.parameters.dataset\<close>, which get
  the work item as their keyword arguments; a container is held here as that work item, with
  the \<^verbatim>\<open>dataset_fields\<close> a mesh item is given in addition.
\<close>

record syn =
  syn_info :: info
  syn_dataset_fields :: "(string \<times> string) list option"

definition create_syns :: "info list \<Rightarrow> syn list" where
  "create_syns needed_syns =
     (let needs_mesh = dict_of [(info_dataset i, info_kind i). i \<leftarrow> needed_syns, info_needs_mesh i]
      in map (\<lambda>needed_syn.
                \<lparr>syn_info = needed_syn,
                 syn_dataset_fields =
                   (if info_kind needed_syn = ''mesh'' then Some needs_mesh else None)\<rparr>)
           needed_syns)"

subsection \<open>The two planners\<close>

definition extract_from_bundle_by_time ::
  "Bundle \<Rightarrow> bool \<Rightarrow> bool \<Rightarrow> rat list option \<Rightarrow> bool \<Rightarrow> error + rat list \<times> info list list \<times> syn list" where
  "extract_from_bundle_by_time b protomesh pbmesh provided_times allow_oversample =
     bind_err (fold_err (extract_dataset_by_time b provided_times allow_oversample)
                 (b_datasets b) ([], [], []))
       (\<lambda>st. case st of (times0, infos, needed_syns) \<Rightarrow>
          bind_err (virtual_datasets b protomesh pbmesh (Some times0) needed_syns infos)
            (\<lambda>ni. if times0 \<noteq> []
                   then (let ti = sort_key fst (zip times0 (snd ni))
                         in Inr (map fst ti, map snd ti, create_syns (fst ni)))
                   else Inr (times0, snd ni, create_syns (fst ni))))"

text \<open>Lines 246 to 256: the planner by dataset gives each work item a grouping of its own.\<close>

definition add_info_by_dataset ::
  "Bundle \<Rightarrow> string \<Rightarrow> string \<Rightarrow> rat list \<Rightarrow> string option \<Rightarrow> plan_state \<Rightarrow> error + plan_state" where
  "add_info_by_dataset b dataset kind this_times component st =
     (case st of (times0, infos, needed_syns) \<Rightarrow>
        bind_err (needs_mesh b dataset kind component) (\<lambda>nm.
          let this_info = \<lparr>info_dataset = dataset, info_component = component, info_kind = kind,
                           info_needs_mesh = nm, info_times = map Some this_times\<rparr>
          in Inr (times0, infos @ [[this_info]], needed_syns @ [this_info])))"

definition extract_component_by_dataset ::
  "Bundle \<Rightarrow> rat list option \<Rightarrow> string \<Rightarrow> string option \<Rightarrow> plan_state \<Rightarrow> error + plan_state" where
  "extract_component_by_dataset b provided_times dataset component st =
     (let kind = b_obs_kind b dataset component in
      if component = None \<and> kind \<notin> set [''lc'', ''mesh''] then Inr st
      else
        (case b_get_times b dataset component (timequalifier_by_kind kind) of
           None \<Rightarrow> Inr st
         | Some ts \<Rightarrow>
             (let this_times = override_times provided_times ts in
              if this_times \<noteq> []
              then fold_err (add_info_by_dataset b dataset kind this_times)
                     (components_of b kind component) st
              else Inr st)))"

definition extract_dataset_by_dataset ::
  "Bundle \<Rightarrow> rat list option \<Rightarrow> string \<Rightarrow> plan_state \<Rightarrow> error + plan_state" where
  "extract_dataset_by_dataset b provided_times dataset st =
     (if dataset = ''_default'' then Inr st
      else
        (case b_enabled b dataset of
           None \<Rightarrow> Inr st
         | Some dataset_enabled \<Rightarrow>
             if \<not> dataset_enabled then Inr st
             else fold_err (extract_component_by_dataset b provided_times dataset)
                    (map Some (b_stars b) @ [None]) st))"

definition extract_from_bundle_by_dataset ::
  "Bundle \<Rightarrow> bool \<Rightarrow> bool \<Rightarrow> rat list option \<Rightarrow> error + info list list \<times> syn list" where
  "extract_from_bundle_by_dataset b protomesh pbmesh provided_times =
     bind_err (fold_err (extract_dataset_by_dataset b provided_times) (b_datasets b) ([], [], []))
       (\<lambda>st. case st of (times0, infos, needed_syns) \<Rightarrow>
          bind_err (virtual_datasets b protomesh pbmesh None needed_syns infos)
            (\<lambda>ni. Inr (snd ni, create_syns (fst ni))))"

subsection \<open>The luminosity scales of one light-curve dataset\<close>

text \<open>
  Lines 571 to 592, for one dataset. The scales \<^verbatim>\<open>_pblum_scale[dataset]\<close> of the bodies
  are a map from the component to its scale. \<open>compute_pblum_scale\<close> stands for the scale
  the body computes from the component's \<^verbatim>\<open>pblum\<close> and limb darkening. The dictionary
  \<^verbatim>\<open>pblum_copy\<close> is read back by \<^verbatim>\<open>items()\<close> in an order the language leaves
  open: \<open>items\<close> is that order, a rearrangement of the entries.
\<close>

type_synonym scales = "string \<rightharpoonup> rat"

datatype pblum_error = UnresolvedScale string string | Raised error

definition pblum_first_pass ::
  "Bundle \<Rightarrow> (string \<Rightarrow> string \<Rightarrow> rat) \<Rightarrow> string \<Rightarrow> string \<Rightarrow>
   scales \<times> (string \<times> string) list \<Rightarrow> error + scales \<times> (string \<times> string) list" where
  "pblum_first_pass b compute_pblum_scale dataset component acc =
     (if component = ''_default'' then Inr acc
      else bind_err (get_value ''pblum_ref'' (b_pblum_ref b component dataset)) (\<lambda>pblum_ref.
        if pblum_ref = ''self''
        then Inr ((fst acc)(component \<mapsto> compute_pblum_scale component dataset), snd acc)
        else Inr (fst acc, AList.update component pblum_ref (snd acc))))"

text \<open>
  Modelled from the spec: \<^verbatim>\<open>Body.get_pblum_scale\<close> of \<^verbatim>\<open>phoebe.backend.universe\<close>,
  which is not in this file. The spec's guarantee is that no component's scale is read
  before it is resolved; the read of a scale that no step has stored yet is therefore
  given a result of its own, \<open>UnresolvedScale\<close> with the reader and the component read,
  which ends the pass and shows in its result.
\<close>

definition get_pblum_scale :: "scales \<Rightarrow> string \<Rightarrow> string \<Rightarrow> pblum_error + rat" where
  "get_pblum_scale st comp' comp_copy =
     (case st comp_copy of None \<Rightarrow> Inl (UnresolvedScale comp' comp_copy) | Some v \<Rightarrow> Inr v)"

fun copy_pblum_scales :: "(string \<times> string) list \<Rightarrow> scales \<Rightarrow> pblum_error + scales" where
  "copy_pblum_scales [] st = Inr st"
| "copy_pblum_scales ((comp', comp_copy) # rest) st =
     (case get_pblum_scale st comp' comp_copy of
        Inl e \<Rightarrow> Inl e
      | Inr v \<Rightarrow> copy_pblum_scales rest (st(comp' \<mapsto> v)))"

definition calibrate_dataset ::
  "Bundle \<Rightarrow> (string \<Rightarrow> string \<Rightarrow> rat) \<Rightarrow> ((string \<times> string) list \<Rightarrow> (string \<times> string) list) \<Rightarrow>
   string \<Rightarrow> scales \<Rightarrow> pblum_error + scales" where
  "calibrate_dataset b compute_pblum_scale items dataset st =
     (case fold_err (pblum_first_pass b compute_pblum_scale dataset) (b_meshables b) (st, []) of
        Inl e \<Rightarrow> Inl (Raised e)
      | Inr acc \<Rightarrow> copy_pblum_scales (items (snd acc)) (fst acc))"

subsection \<open>The step loop: filling one work item\<close>

text \<open>
  Lines 659 to 820. A value in a container is a number the code computes itself, an array
  of visible centroids, or a value an external service returns (\<open>Ext\<close>); units are left
  out. A container maps a qualifier to the series of its values: \<^verbatim>\<open>this_syn[q].append(v)\<close>
  extends the series, \<^verbatim>\<open>this_syn[q] = v\<close> replaces it.
\<close>

datatype 'a val = Num rat | Centroids "(rat \<times> rat \<times> rat) option list" | Ext 'a

type_synonym 'a container = "string \<Rightarrow> 'a val list"

definition syn_append :: "string \<Rightarrow> 'a val \<Rightarrow> 'a container \<Rightarrow> 'a container" where
  "syn_append q v c = c(q := c q @ [v])"

definition syn_set :: "string \<Rightarrow> 'a val \<Rightarrow> 'a container \<Rightarrow> 'a container" where
  "syn_set q v c = c(q := [v])"

text \<open>
  What the step reads from the system, the dynamics and the bundle at the current time:
  the observables of \<^verbatim>\<open>system.observe\<close>, the position and velocity of a component
  (\<^verbatim>\<open>xi[cind]\<close> and so on), the eclipse crossing, the attributes and mesh columns of a
  body by name, its two methods, the horizons of \<^verbatim>\<open>handle_eclipses\<close>, the two analytic
  horizons, and the writes of the dataset-dependent columns (lines 799 to 816, through
  \<^verbatim>\<open>ParameterSet.set_value\<close>), which can raise.
\<close>

record 'a externals =
  x_rv :: "info \<Rightarrow> rat"
  x_flux :: "info \<Rightarrow> rat"
  x_ifm :: "info \<Rightarrow> (string \<times> 'a) list"
  x_pos :: "string option \<Rightarrow> rat \<times> rat \<times> rat"
  x_vel :: "string option \<Rightarrow> rat \<times> rat \<times> rat"
  x_crossing :: "info \<Rightarrow> rat \<Rightarrow> rat"
  x_Ns :: "info \<Rightarrow> rat \<Rightarrow> rat"
  x_body :: "string option \<Rightarrow> string \<Rightarrow> 'a"
  x_vertices_per_triangle :: "string option \<Rightarrow> ((rat \<times> rat \<times> rat) \<times> (rat \<times> rat \<times> rat) \<times> (rat \<times> rat \<times> rat)) list"
  x_weights :: "string option \<Rightarrow> (rat \<times> rat \<times> rat) list"
  x_distortion_method :: "string option \<Rightarrow> string"
  x_mesh_method :: "string option \<Rightarrow> string"
  x_horizons :: "(string option \<Rightarrow> 'a \<times> 'a \<times> 'a) option"
  x_marching :: "string option \<Rightarrow> 'a \<times> 'a \<times> 'a"
  x_wd :: "string option \<Rightarrow> rat \<Rightarrow> 'a \<times> 'a \<times> 'a"
  x_dependent :: "info \<Rightarrow> info list \<Rightarrow> rat \<Rightarrow> 'a container \<Rightarrow> error + 'a container"

text \<open>Lines 730 to 764: the columns copied from the body.\<close>

definition mesh_columns :: "string list" where
  "mesh_columns = [''pot'', ''rpole'', ''volume'', ''xs'', ''ys'', ''zs'', ''vxs'', ''vys'', ''vzs'',
     ''vertices'', ''areas'', ''normals'', ''nxs'', ''nys'', ''nzs'', ''mus'', ''loggs'', ''teffs'',
     ''rs'', ''r_projs'', ''visibilities'']"

definition fill_mesh_columns :: "'a externals \<Rightarrow> string option \<Rightarrow> 'a container \<Rightarrow> 'a container" where
  "fill_mesh_columns x component this_syn =
     fold (\<lambda>q c. syn_set q (Ext (x_body x component q)) c) mesh_columns this_syn"

text \<open>
  Lines 766 to 770: the weighted sum of the three vertices of each triangle, replaced by
  not-a-number (here \<open>None\<close>) where the sum is the zero vector.
\<close>

definition scale3 :: "rat \<Rightarrow> rat \<times> rat \<times> rat \<Rightarrow> rat \<times> rat \<times> rat" where
  "scale3 w v = (case v of (a, b, c) \<Rightarrow> (w * a, w * b, w * c))"

definition add3 :: "rat \<times> rat \<times> rat \<Rightarrow> rat \<times> rat \<times> rat \<Rightarrow> rat \<times> rat \<times> rat" where
  "add3 u v = (case u of (a, b, c) \<Rightarrow> (case v of (d, e, f) \<Rightarrow> (a + d, b + e, c + f)))"

definition visible_centroids ::
  "((rat \<times> rat \<times> rat) \<times> (rat \<times> rat \<times> rat) \<times> (rat \<times> rat \<times> rat)) list \<Rightarrow> (rat \<times> rat \<times> rat) list \<Rightarrow>
   (rat \<times> rat \<times> rat) option list" where
  "visible_centroids vertices weights =
     map (\<lambda>(tri, w).
            (case tri of (v1, v2, v3) \<Rightarrow> (case w of (w1, w2, w3) \<Rightarrow>
               (let vc = add3 (add3 (scale3 w1 v1) (scale3 w2 v2)) (scale3 w3 v3)
                in if vc = (0, 0, 0) then None else Some vc))))
         (zip vertices weights)"

text \<open>Lines 773 to 776: the horizon of the eclipse detection.\<close>

definition fill_horizon :: "'a externals \<Rightarrow> bool \<Rightarrow> string option \<Rightarrow> 'a container \<Rightarrow> 'a container" where
  "fill_horizon x do_horizon component this_syn =
     (case x_horizons x of
        None \<Rightarrow> this_syn
      | Some horizons \<Rightarrow>
          if do_horizon
          then (case horizons component of (hx, hy, hz) \<Rightarrow>
                  syn_set ''horizon_zs'' (Ext hz)
                    (syn_set ''horizon_ys'' (Ext hy)
                      (syn_set ''horizon_xs'' (Ext hx) this_syn)))
          else this_syn)"

text \<open>Lines 779 to 796: the analytic horizon.\<close>

definition fill_horizon_analytic ::
  "'a externals \<Rightarrow> bool \<Rightarrow> string option \<Rightarrow> rat \<Rightarrow> 'a container \<Rightarrow> error + 'a container" where
  "fill_horizon_analytic x do_horizon component time this_syn =
     (if do_horizon
      then
        (if x_distortion_method x component = ''roche''
         then bind_err
                (if x_mesh_method x component = ''marching'' then Inr (x_marching x component)
                 else if x_mesh_method x component = ''wd'' then Inr (x_wd x component time)
                 else Inl (NotImplementedError
                        (''analytic horizon not implemented for mesh_method='' @ [CHR 0x27]
                         @ x_mesh_method x component @ [CHR 0x27])))
                (\<lambda>ha. case ha of (hx, hy, hz) \<Rightarrow>
                   Inr (syn_set ''horizon_analytic_zs'' (Ext hz)
                         (syn_set ''horizon_analytic_ys'' (Ext hy)
                           (syn_set ''horizon_analytic_xs'' (Ext hx) this_syn))))
         else Inr this_syn)
      else Inr this_syn)"

text \<open>Lines 725 to 816: a work item of kind mesh.\<close>

definition fill_mesh_info ::
  "'a externals \<Rightarrow> bool \<Rightarrow> rat \<Rightarrow> info list \<Rightarrow> info \<Rightarrow> 'a container \<Rightarrow> error + 'a container" where
  "fill_mesh_info x do_horizon time infolist info this_syn =
     (let component = info_component info;
          c1 = fill_mesh_columns x component this_syn;
          c2 = syn_set ''visible_centroids''
                 (Centroids (visible_centroids (x_vertices_per_triangle x component)
                                               (x_weights x component))) c1;
          c3 = fill_horizon x do_horizon component c2
      in bind_err (fill_horizon_analytic x do_horizon component time c3)
           (x_dependent x info infolist time))"

text \<open>Lines 678 to 820: the dispatch on the kind of the work item.\<close>

definition fill_info ::
  "'a externals \<Rightarrow> bool \<Rightarrow> rat \<Rightarrow> info list \<Rightarrow> info \<Rightarrow> 'a container \<Rightarrow> error + 'a container" where
  "fill_info x do_horizon time infolist info this_syn =
     (let kind = info_kind info in
      if kind = ''rv''
      then (if info_needs_mesh info
            then Inr (syn_append ''rvs'' (Num (x_rv x info)) this_syn)
            else Inr (syn_append ''rvs''
                        (Num (- 1 * snd (snd (x_vel x (info_component info))))) this_syn))
      else if kind = ''lc''
      then Inr (syn_append ''fluxes'' (Num (x_flux x info)) this_syn)
      else if kind = ''etv''
      then (let time_ecl = x_crossing x info time
            in Inr (syn_append ''etvs'' (Num (time_ecl - time))
                     (syn_append ''time_ecls'' (Num time_ecl)
                       (syn_append ''time_ephems'' (Num time)
                         (syn_append ''Ns'' (Num (x_Ns x info time)) this_syn)))))
      else if kind = ''ifm''
      then Inr (fold (\<lambda>(key, v) c. syn_set key (Ext v) c) (x_ifm x info) this_syn)
      else if kind = ''orb''
      then (case x_pos x (info_component info) of (px, py, pz) \<Rightarrow>
             (case x_vel x (info_component info) of (vx, vy, vz) \<Rightarrow>
                Inr (syn_append ''vzs'' (Num vz)
                      (syn_append ''vys'' (Num vy)
                        (syn_append ''vxs'' (Num vx)
                          (syn_append ''zs'' (Num pz)
                            (syn_append ''ys'' (Num py)
                              (syn_append ''xs'' (Num px) this_syn))))))))
      else if kind = ''mesh''
      then fill_mesh_info x do_horizon time infolist info this_syn
      else Inl (NotImplementedError (''kind '' @ kind @ '' not yet supported by this backend'')))"

text \<open>
  Lines 659 to 675: the loop over the work items of a time step. The container of an item
  is the one \<^verbatim>\<open>new_syns.filter\<close> selects by component, dataset and kind, and by the time
  as well for the kinds mesh and sp. The update of the system before the loop (lines 613
  to 654) is the work of the external services; what the loop reads from them afterwards
  is the record of the externals.
\<close>

type_synonym syn_key = "string option \<times> string \<times> string \<times> rat option"

definition this_syn_key :: "rat \<Rightarrow> info \<Rightarrow> syn_key" where
  "this_syn_key time info =
     (if info_kind info \<in> set [''mesh'', ''sp'']
      then (info_component info, info_dataset info, info_kind info, Some time)
      else (info_component info, info_dataset info, info_kind info, None))"

definition fill_step_info ::
  "'a externals \<Rightarrow> bool \<Rightarrow> rat \<Rightarrow> info list \<Rightarrow> info \<Rightarrow> (syn_key \<Rightarrow> 'a container) \<Rightarrow>
   error + (syn_key \<Rightarrow> 'a container)" where
  "fill_step_info x do_horizon time infolist info new_syns =
     bind_err (fill_info x do_horizon time infolist info (new_syns (this_syn_key time info)))
       (\<lambda>c. Inr (new_syns(this_syn_key time info := c)))"

definition fill_step ::
  "'a externals \<Rightarrow> bool \<Rightarrow> rat \<Rightarrow> info list \<Rightarrow> (syn_key \<Rightarrow> 'a container) \<Rightarrow>
   error + (syn_key \<Rightarrow> 'a container)" where
  "fill_step x do_horizon time infolist new_syns =
     fold_err (fill_step_info x do_horizon time infolist) infolist new_syns"

subsection \<open>The legacy adapter: \<^verbatim>\<open>ret_dict\<close> and \<^verbatim>\<open>fill_mesh\<close>\<close>

definition p2to1 :: "(string \<times> string) list" where
  "p2to1 = [(''tloc'', ''teffs''), (''glog'', ''loggs''), (''vcx'', ''xs''), (''vcy'', ''ys''),
            (''vcz'', ''zs''), (''grx'', ''nxs''), (''gry'', ''nys''), (''grz'', ''nzs''),
            (''csbt'', ''cosbetas''), (''rad'', ''rs''), (''Inorm'', ''abs_normal_intensities'')]"

text \<open>\<^verbatim>\<open>int(c)\<close> of one character: its digit, or the \<^verbatim>\<open>ValueError\<close> of another character.\<close>

definition digit_of :: "char \<Rightarrow> nat option" where
  "digit_of c = index_of ''0123456789'' c"

text \<open>\<^verbatim>\<open>ret_dict\<close>: the component and the qualifier a key of the engine's mesh stands for.\<close>

definition ret_dict :: "string \<Rightarrow> error + string \<times> string" where
  "ret_dict key =
     (if key = [] then Inl (IndexError ''string index out of range'')
      else
        (case digit_of (last key) of
           None \<Rightarrow> Inl (ValueError ''invalid literal for int()'')
         | Some comp' \<Rightarrow>
             (let key' = butlast key in
              if comp' = 1 \<or> comp' = 2
              then Inr (if comp' = 1 then ''primary'' else ''secondary'',
                        (case map_of p2to1 key' of Some q \<Rightarrow> q | None \<Rightarrow> key'))
              else Inl (ValueError ''All mesh keys should be component specific.''))))"

text \<open>A Python string used as a condition holds when it is not empty.\<close>

definition truthy :: "string \<Rightarrow> bool" where
  "truthy s = (s \<noteq> [])"

text \<open>\<^verbatim>\<open>sub in key\<close> on strings.\<close>

definition substring :: "string \<Rightarrow> string \<Rightarrow> bool" where
  "substring sub key = (\<exists>i \<in> set [0 ..< Suc (length key)]. take (length sub) (drop i key) = sub)"

text \<open>
  \<^verbatim>\<open>np.array(zip(s1*v, ..., s8*v)).flatten()\<close>: each value of the quadrant becomes eight
  values in a row, with the signs given.
\<close>

definition expand8 :: "real list \<Rightarrow> real list \<Rightarrow> real list" where
  "expand8 signs vals = concat (map (\<lambda>v. map (\<lambda>s. s * v) signs) vals)"

definition signs_y :: "real list" where
  "signs_y = [1, 1, -1, -1, 1, 1, -1, -1]"

definition signs_z :: "real list" where
  "signs_z = [1, 1, 1, 1, -1, -1, -1, -1]"

definition signs_none :: "real list" where
  "signs_none = [1, 1, 1, 1, 1, 1, 1, 1]"

text \<open>
  Lines 978 to 983. The source writes \<^verbatim>\<open>if 'vcy' or 'gry' in key\<close>, which Python reads as
  \<^verbatim>\<open>'vcy' or ('gry' in key)\<close>, and \<^verbatim>\<open>if 'vcz' or 'grz' in key\<close> likewise; the
  \<^verbatim>\<open>else\<close> belongs to the second \<^verbatim>\<open>if\<close>.
\<close>

definition protomesh_key_val :: "string \<Rightarrow> real list \<Rightarrow> real list" where
  "protomesh_key_val key prot_val =
     (let key_val1 = (if truthy ''vcy'' \<or> substring ''gry'' key
                      then Some (expand8 signs_y prot_val) else None)
      in if truthy ''vcz'' \<or> substring ''grz'' key
         then expand8 signs_z prot_val
         else expand8 signs_none prot_val)"

text \<open>The mesh of the engine: a dictionary from its keys to arrays.\<close>

type_synonym legacy_mesh = "(string \<times> real list) list"

definition mesh_get :: "legacy_mesh \<Rightarrow> string \<Rightarrow> error + real list" where
  "mesh_get mesh key = (case map_of mesh key of None \<Rightarrow> Inl (KeyError key) | Some v \<Rightarrow> Inr v)"

text \<open>Lines 959 to 968: the lengths of the gradients of the two stars.\<close>

definition grtot_of :: "legacy_mesh \<Rightarrow> string \<Rightarrow> error + real list" where
  "grtot_of mesh n =
     bind_err (mesh_get mesh (''grx'' @ n)) (\<lambda>grx.
       bind_err (mesh_get mesh (''gry'' @ n)) (\<lambda>gry.
         bind_err (mesh_get mesh (''grz'' @ n)) (\<lambda>grz.
           Inr (map (\<lambda>(gx, gy, gz). sqrt (gx ^ 2 + gy ^ 2 + gz ^ 2)) (zip grx (zip gry grz))))))"

text \<open>
  The containers the adapter writes to, by component, dataset and qualifier (and the time,
  for the automesh). \<^verbatim>\<open>set_value\<close> fails where there is no such parameter; the adapter
  catches that and logs a warning.
\<close>

type_synonym legacy_syns = "(string \<times> string \<times> string \<times> real option) \<rightharpoonup> real list"

definition set_value_or_warn ::
  "string \<Rightarrow> (string \<times> string \<times> string \<times> real option) \<Rightarrow> real list \<Rightarrow> legacy_syns \<times> string list \<Rightarrow>
   legacy_syns \<times> string list" where
  "set_value_or_warn key d v acc =
     (case acc of (new_syns, warnings) \<Rightarrow>
        if d \<in> dom new_syns then (new_syns(d \<mapsto> v), warnings)
        else (new_syns, warnings @ [key]))"

text \<open>
  Lines 973 to 999: one key of the protomesh. Where a gradient has length zero the
  source divides by zero and stores not-a-number; the division of HOL gives 0 there.
\<close>

definition fill_protomesh_key ::
  "legacy_mesh \<Rightarrow> real list \<times> real list \<Rightarrow> string \<Rightarrow> string \<times> string \<Rightarrow> legacy_syns \<times> string list \<Rightarrow>
   error + legacy_syns \<times> string list" where
  "fill_protomesh_key mesh grtot key d acc =
     bind_err (mesh_get mesh key) (\<lambda>prot_val.
       (let key_val = protomesh_key_val key prot_val;
            v = (if take 2 key = ''gr''
                 then (let grtotn = expand8 signs_none
                                      (if last key = CHR ''1'' then fst grtot else snd grtot)
                       in map (\<lambda>(kv, g). - kv / g) (zip key_val grtotn))
                 else key_val)
        in Inr (set_value_or_warn key (fst d, ''protomesh'', snd d, None) v acc)))"

text \<open>
  \<^verbatim>\<open>np.array_split(a, n)\<close>: \<open>n\<close> consecutive parts, the first \<open>length a mod n\<close> of them
  one element longer than the others.
\<close>

fun split_sizes :: "nat list \<Rightarrow> 'a list \<Rightarrow> 'a list list" where
  "split_sizes [] xs = []"
| "split_sizes (k # ks) xs = take k xs # split_sizes ks (drop k xs)"

definition array_split :: "'a list \<Rightarrow> nat \<Rightarrow> error + 'a list list" where
  "array_split a n =
     (if n = 0 then Inl (ValueError ''number sections must be larger than 0.'')
      else Inr (split_sizes (replicate (length a mod n) (Suc (length a div n))
                             @ replicate (n - length a mod n) (length a div n)) a))"

text \<open>
  Lines 1001 to 1028: one key of the automesh. Only the two intensity keys are written,
  to the dataset of the light curve, once for each time; the branch of the coordinate
  columns lies under the test for the intensity keys and does nothing.
\<close>

definition fill_pbmesh_key ::
  "legacy_mesh \<Rightarrow> string \<Rightarrow> real list \<Rightarrow> string \<Rightarrow> string \<times> string \<Rightarrow> legacy_syns \<times> string list \<Rightarrow>
   error + legacy_syns \<times> string list" where
  "fill_pbmesh_key mesh dataset time key d acc =
     bind_err (mesh_get mesh key) (\<lambda>col.
       bind_err (array_split col (length time)) (\<lambda>key_values.
         if key \<in> set [''Inorm1'', ''Inorm2'']
         then (if take 2 key \<in> set [''vc'', ''gr''] then Inr acc
               else Inr (fold (\<lambda>(t, part) acc'.
                                 set_value_or_warn key (fst d, dataset, snd d, Some t)
                                   (expand8 signs_none part) acc')
                           (zip time key_values) acc))
         else Inr acc))"

text \<open>
  \<^verbatim>\<open>fill_mesh(mesh, type, time)\<close>; \<open>dataset\<close> is the dataset of the light curve the call
  is made for. The type is tested inside the loop over the keys.
\<close>

definition fill_mesh ::
  "legacy_mesh \<Rightarrow> string \<Rightarrow> string \<Rightarrow> real list \<Rightarrow> legacy_syns \<times> string list \<Rightarrow>
   error + legacy_syns \<times> string list" where
  "fill_mesh mesh type dataset time acc =
     bind_err (if type = ''protomesh''
               then bind_err (grtot_of mesh ''1'') (\<lambda>grtot1.
                      bind_err (grtot_of mesh ''2'') (\<lambda>grtot2. Inr (grtot1, grtot2)))
               else Inr ([], []))
       (\<lambda>grtot.
          fold_err (\<lambda>key acc'.
              bind_err (ret_dict key) (\<lambda>d.
                if type = ''protomesh'' then fill_protomesh_key mesh grtot key d acc'
                else if type = ''pbmesh'' then fill_pbmesh_key mesh dataset time key d acc'
                else Inl (ValueError
                       ''Only pbmesh and protomesh are acceptable mesh types.'')))
            (map fst mesh) acc)"

text \<open>The exposure window of a time, as the claim describes it: \<open>n\<close> points, equally spaced.\<close>

definition exposure_window :: "rat \<Rightarrow> rat \<Rightarrow> int \<Rightarrow> rat list" where
  "exposure_window t exptime n =
     map (\<lambda>i. t - exptime / 2 + of_nat i * (exptime / of_int (n - 1))) [0 ..< nat n]"

text \<open>
  Line 613: the test \<^verbatim>\<open>True in [info['needs_mesh'] for info in infolist]\<close> that makes a
  time step update the meshes.
\<close>

definition step_needs_mesh :: "info list \<Rightarrow> bool" where
  "step_needs_mesh infolist = (True \<in> set (map info_needs_mesh infolist))"

text \<open>
  The times the automesh is described to have: those of every work item that needs the
  mesh and is not of kind mesh, without duplicates, ascending.
\<close>

definition mesh_requiring_times :: "info list \<Rightarrow> rat list" where
  "mesh_requiring_times items =
     sort (remdups (concat [float_times i. i \<leftarrow> items,
                            info_needs_mesh i \<and> info_kind i \<notin> set [''mesh'']]))"

text \<open>The time arrays of the automesh containers among the containers of a plan.\<close>

definition automesh_arrays :: "syn list \<Rightarrow> rat option list list" where
  "automesh_arrays syns = [info_times (syn_info s). s \<leftarrow> syns, info_dataset (syn_info s) = ''pbmesh'']"


subsection \<open>Invariants of the planner's loops\<close>

text \<open>The grid holds each time once, and there is one list of work items for each time.\<close>

definition grid_ok :: "rat list \<times> info list list \<Rightarrow> bool" where
  "grid_ok ti \<longleftrightarrow> distinct (fst ti) \<and> length (snd ti) = length (fst ti)"

text \<open>Moreover the times of every work item planned so far are in the grid.\<close>

definition plan_ok :: "plan_state \<Rightarrow> bool" where
  "plan_ok st \<longleftrightarrow> grid_ok (fst st, fst (snd st)) \<and>
     (\<forall>i \<in> set (snd (snd st)). set (float_times i) \<subseteq> set (fst st))"

subsection \<open>Example inputs\<close>

text \<open>
  A binary with the light curve \<^verbatim>\<open>lc01\<close> (system level, times 1, 1/2, 0) and the
  radial velocities \<^verbatim>\<open>rv01\<close> of both stars (times 1 for the primary, 2 and 1/2 for the
  secondary), computed by the phoebe engine with numerical fluxes and flux-weighted
  velocities.
\<close>

definition binary :: Bundle where
  "binary =
     \<lparr>b_datasets = [''_default'', ''lc01'', ''rv01''],
      b_compute_kind = ''phoebe'',
      b_enabled = (\<lambda>d. Some True),
      b_stars = [''primary'', ''secondary''],
      b_meshables = [''primary'', ''secondary''],
      b_obs_kind = (\<lambda>d c. if d = ''lc01'' then (if c = None then ''lc'' else ''None'') else ''rv''),
      b_get_times = (\<lambda>d c q.
         if d = ''lc01'' then (if c = None then Some [1, 1 / 2, 0] else None)
         else if c = Some ''primary'' then Some [1]
         else if c = Some ''secondary'' then Some [2, 1 / 2]
         else None),
      b_lc_method = (\<lambda>d. Some ''numerical''),
      b_rv_method = (\<lambda>d c. Some ''flux-weighted''),
      b_exptime = (\<lambda>d. Some 0),
      b_fti_method = (\<lambda>d. Some ''none''),
      b_fti_oversample = (\<lambda>d. Some 5),
      b_pblum_ref = (\<lambda>c d. Some ''self'')\<rparr>"

text \<open>
  The same binary computed by an engine without meshes, by the legacy engine with the
  analytic flux method, and by phoebe with the analytic flux method.
\<close>

definition photodynam :: Bundle where
  "photodynam = binary\<lparr>b_compute_kind := ''photodynam''\<rparr>"

definition legacy_analytic :: Bundle where
  "legacy_analytic = binary\<lparr>b_compute_kind := ''legacy'', b_lc_method := (\<lambda>d. Some ''analytical'')\<rparr>"

definition phoebe_analytic :: Bundle where
  "phoebe_analytic = binary\<lparr>b_lc_method := (\<lambda>d. Some ''analytical'')\<rparr>"

text \<open>
  The dataset \<^verbatim>\<open>rv01\<close> alone, with different times for the two stars: both work items
  need the mesh.
\<close>

definition rv_only :: Bundle where
  "rv_only = binary\<lparr>b_datasets := [''rv01'']\<rparr>"

text \<open>The light curve alone, with an exposure of 1/10 day oversampled by a given count.\<close>

definition exposed :: "int \<Rightarrow> Bundle" where
  "exposed n =
     binary\<lparr>b_datasets := [''lc01''],
            b_get_times := (\<lambda>d c q. if d = ''lc01'' \<and> c = None then Some [5] else None),
            b_exptime := (\<lambda>d. Some (1 / 10)),
            b_fti_method := (\<lambda>d. Some ''oversample''),
            b_fti_oversample := (\<lambda>d. Some n)\<rparr>"

text \<open>
  A star whose services return fixed values: a body with the given distortion and mesh
  methods, horizons exposed, and dependent columns that are written without error.
\<close>

definition star_services :: "string \<Rightarrow> string \<Rightarrow> nat externals" where
  "star_services distortion_method mesh_method =
     \<lparr>x_rv = (\<lambda>i. 7), x_flux = (\<lambda>i. 1), x_ifm = (\<lambda>i. []),
      x_pos = (\<lambda>c. (0, 0, 0)), x_vel = (\<lambda>c. (0, 0, 3)),
      x_crossing = (\<lambda>i t. t + 1 / 100), x_Ns = (\<lambda>i t. 0),
      x_body = (\<lambda>c q. 0), x_vertices_per_triangle = (\<lambda>c. []), x_weights = (\<lambda>c. []),
      x_distortion_method = (\<lambda>c. distortion_method), x_mesh_method = (\<lambda>c. mesh_method),
      x_horizons = Some (\<lambda>c. (1, 2, 3)),
      x_marching = (\<lambda>c. (4, 5, 6)), x_wd = (\<lambda>c t. (7, 8, 9)),
      x_dependent = (\<lambda>i l t c. Inr c)\<rparr>"



definition mesh_item :: info where
  "mesh_item = \<lparr>info_dataset = ''mesh01'', info_component = Some ''primary'', info_kind = ''mesh'',
                info_needs_mesh = True, info_times = [Some 0]\<rparr>"

definition lc_item :: info where
  "lc_item = \<lparr>info_dataset = ''lc01'', info_component = None, info_kind = ''lc'',
              info_needs_mesh = True, info_times = [Some 0]\<rparr>"

text \<open>
  One quadrant point for each star, as the legacy engine returns it, and the empty
  protomesh containers of the primary.
\<close>

definition quadrant :: legacy_mesh where
  "quadrant = [(''grx1'', [0]), (''gry1'', [0]), (''grz1'', [1]),
               (''grx2'', [0]), (''gry2'', [0]), (''grz2'', [1]),
               (''vcy1'', [2]), (''tloc1'', [5000])]"

definition protomesh_syns :: legacy_syns where
  "protomesh_syns = map_of [((''primary'', ''protomesh'', ''ys'', None), []),
                            ((''primary'', ''protomesh'', ''teffs'', None), [])]"

text \<open>The value a call of \<^verbatim>\<open>fill_mesh\<close> leaves in one parameter.\<close>

definition stored :: "error + legacy_syns \<times> string list \<Rightarrow> string \<times> string \<times> string \<times> real option \<Rightarrow> real list option" where
  "stored r d = (case r of Inl e \<Rightarrow> None | Inr acc \<Rightarrow> fst acc d)"

text \<open>A work item of a kind the step loop has no branch for.\<close>

definition sed_item :: info where
  "sed_item = \<lparr>info_dataset = ''sed01'', info_component = None, info_kind = ''sed'',
               info_needs_mesh = False, info_times = [Some 0]\<rparr>"

text \<open>
  Luminosity references: in \<open>copying\<close> the primary takes the scale of the secondary,
  which computes its own; in \<open>chain\<close> the primary refers to the secondary, the secondary
  to the tertiary, and only the tertiary computes its own; in \<open>mutual\<close> the two stars
  refer to each other. \<open>scale_of\<close> is a scale for each star.
\<close>

definition copying :: Bundle where
  "copying = binary\<lparr>b_pblum_ref := (\<lambda>c d. if c = ''primary'' then Some ''secondary'' else Some ''self'')\<rparr>"

definition chain :: Bundle where
  "chain = binary\<lparr>b_stars := [''primary'', ''secondary'', ''tertiary''],
                  b_meshables := [''primary'', ''secondary'', ''tertiary''],
                  b_pblum_ref := (\<lambda>c d. if c = ''primary'' then Some ''secondary''
                                         else if c = ''secondary'' then Some ''tertiary''
                                         else Some ''self'')\<rparr>"

definition mutual :: Bundle where
  "mutual = binary\<lparr>b_pblum_ref := (\<lambda>c d. if c = ''primary'' then Some ''secondary'' else Some ''primary'')\<rparr>"

definition scale_of :: "string \<Rightarrow> string \<Rightarrow> rat" where
  "scale_of c d = (if c = ''primary'' then 2 else if c = ''secondary'' then 3 else 5)"

definition no_scales :: scales where
  "no_scales = Map.empty"

section \<open>Properties\<close>

subsection \<open>Loops that can raise\<close>

lemma fold_err_append:
  "fold_err f (xs @ ys) s = bind_err (fold_err f xs s) (fold_err f ys)"
  by (induction xs arbitrary: s) (auto simp: bind_err_def split: sum.splits)

text \<open>
  A loop that returns has run its body on each element of the list, in a state the
  invariant holds in, and what the body reached there persists to the end.
\<close>

lemma fold_err_visit:
  assumes "fold_err f xs s = Inr s'" and "x \<in> set xs" and "P s"
    and step: "\<And>y s s'. P s \<Longrightarrow> f y s = Inr s' \<Longrightarrow> P s' \<and> R s s'"
    and refl: "\<And>s. R s s"
    and trans: "\<And>s1 s2 s3. R s1 s2 \<Longrightarrow> R s2 s3 \<Longrightarrow> R s1 s3"
  shows "P s' \<and> R s s' \<and> (\<exists>s1 s2. P s1 \<and> f x s1 = Inr s2 \<and> R s2 s')"
  using assms(1,2,3)
proof (induction xs arbitrary: s)
  case Nil
  then show ?case by simp
next
  case (Cons y xs)
  from Cons.prems(1) obtain s1 where s1: "f y s = Inr s1" "fold_err f xs s1 = Inr s'"
    by (auto split: sum.splits)
  from step [OF Cons.prems(3) s1(1)] have p1: "P s1" "R s s1" by simp_all
  have rest: "P s' \<and> R s1 s'"
    using s1(2) p1(1)
  proof (induction xs arbitrary: s1)
    case Nil
    then show ?case using refl by simp
  next
    case (Cons z zs)
    from Cons.prems(1) obtain s2 where s2: "f z s1 = Inr s2" "fold_err f zs s2 = Inr s'"
      by (auto split: sum.splits)
    from step [OF Cons.prems(2) s2(1)] have "P s2" "R s1 s2" by simp_all
    with Cons.IH [OF s2(2)] trans show ?case by blast
  qed
  show ?case
  proof (cases "x = y")
    case True
    then show ?thesis using s1(1) Cons.prems(3) rest p1 trans by blast
  next
    case False
    then have "x \<in> set xs" using Cons.prems(2) by simp
    from Cons.IH [OF s1(2) this p1(1)] p1(2) trans show ?thesis by blast
  qed
qed

lemma fold_err_unchanged:
  assumes "fold_err f xs s = Inr s'" and "\<And>x s s'. f x s = Inr s' \<Longrightarrow> s' = s"
  shows "s' = s"
  using assms(1)
proof (induction xs arbitrary: s)
  case Nil
  then show ?case by simp
next
  case (Cons x xs)
  from Cons.prems obtain s1 where s1: "f x s = Inr s1" "fold_err f xs s1 = Inr s'"
    by (auto split: sum.splits)
  from assms(2) [OF s1(1)] Cons.IH [OF s1(2)] show ?case by simp
qed

lemma fold_err_returns:
  assumes "\<And>x s. x \<in> set xs \<Longrightarrow> f x s = Inr s"
  shows "fold_err f xs s = Inr s"
  using assms by (induction xs) auto

lemma fold_snoc: "fold (\<lambda>c acc. acc @ [g c]) cs acc = acc @ map g cs"
  by (induction cs arbitrary: acc) auto

lemma index_of_None: "index_of xs x = None \<longleftrightarrow> x \<notin> set xs"
  by (induction xs) auto

lemma index_of_Some: "index_of xs x = Some i \<Longrightarrow> i < length xs \<and> xs ! i = x"
  by (induction xs arbitrary: i) (auto split: if_splits)

lemma append_at_length: "append_at ind x xss = Inr r \<Longrightarrow> length r = length xss"
  by (auto simp: append_at_def split: if_splits)

subsection \<open>\<^verbatim>\<open>_needs_mesh\<close>\<close>

text \<open>
  C2. For every dataset, kind and component, \<open>needs_mesh\<close> returns false when the kind of
  the compute options is not one of the engines that use numerical meshes, whatever the
  kind of the observable is; no method is looked up on the way.
\<close>

theorem needs_mesh_false_without_meshing:
  "b_compute_kind b \<notin> set backends_that_require_meshing \<Longrightarrow>
   needs_mesh b dataset kind component = Inr False"
  by (simp add: needs_mesh_def)

theorem needs_mesh_false_without_meshing_witness:
  "b_compute_kind photodynam \<notin> set backends_that_require_meshing \<and>
   needs_mesh photodynam ''lc01'' ''lc'' None = Inr False"
proof -
  have k: "b_compute_kind photodynam \<notin> set backends_that_require_meshing"
    by (simp add: photodynam_def backends_that_require_meshing_def)
  from needs_mesh_false_without_meshing [OF k, of "''lc01''" "''lc''" None] k
  show ?thesis by (rule conjI [rotated])
qed

text \<open>
  C3, as stated, fails: the test of the flux method is made for the phoebe engine only.
  With the legacy engine, which also uses meshes, a light curve whose flux method is the
  analytic one has \<open>needs_mesh\<close> true.
\<close>

theorem needs_mesh_analytic_legacy_counterexample:
  "b_compute_kind legacy_analytic \<in> set backends_that_require_meshing \<and>
   b_lc_method legacy_analytic ''lc01'' = Some ''analytical'' \<and>
   needs_mesh legacy_analytic ''lc01'' ''lc'' None = Inr True"
  by (simp add: legacy_analytic_def needs_mesh_def backends_that_require_meshing_def get_value_def)

text \<open>
  C3, amended. For every light-curve dataset whose flux method is the analytic one,
  \<open>needs_mesh\<close> returns false when the engine is phoebe; the work item the planner
  builds for the dataset then carries the flag false, so that a time step holding only this
  item does not update the meshes.
\<close>

theorem needs_mesh_analytic_phoebe:
  assumes "b_compute_kind b = ''phoebe''" and "b_lc_method b dataset = Some ''analytical''"
  shows "needs_mesh b dataset ''lc'' component = Inr False
       \<and> (\<forall>st st'. add_info_by_time b dataset ''lc'' this_times component st = Inr st' \<longrightarrow>
             snd (snd st') = snd (snd st) @ [\<lparr>info_dataset = dataset, info_component = component,
                info_kind = ''lc'', info_needs_mesh = False, info_times = map Some this_times\<rparr>]
             \<and> \<not> step_needs_mesh [last (snd (snd st'))])"
proof -
  have nm: "needs_mesh b dataset ''lc'' component = Inr False"
    using assms by (simp add: needs_mesh_def backends_that_require_meshing_def get_value_def)
  show ?thesis using nm
    by (auto simp: add_info_by_time_def bind_err_def Let_def step_needs_mesh_def split: sum.splits)
qed

text \<open>
  The amended C3 on the binary, with the analytic flux method.
\<close>

theorem needs_mesh_analytic_phoebe_witness:
  "needs_mesh phoebe_analytic ''lc01'' ''lc'' None = Inr False \<and>
   map_sum id (\<lambda>st. map info_needs_mesh (snd (snd st)))
     (add_info_by_time phoebe_analytic ''lc01'' ''lc'' [0, 1 / 2, 1] None ([], [], [])) = Inr [False]"
proof -
  have k: "b_compute_kind phoebe_analytic = ''phoebe''"
    by (simp add: phoebe_analytic_def binary_def)
  have m: "b_lc_method phoebe_analytic ''lc01'' = Some ''analytical''"
    by (simp add: phoebe_analytic_def)
  have e: "map_sum id (\<lambda>st. map info_needs_mesh (snd (snd st)))
     (add_info_by_time phoebe_analytic ''lc01'' ''lc'' [0, 1 / 2, 1] None ([], [], [])) = Inr [False]"
    by code_simp
  from needs_mesh_analytic_phoebe [OF k m, of None "[0, 1 / 2, 1]"] e show ?thesis by simp
qed

subsection \<open>The grid of the planner by time\<close>

lemma add_time_grid:
  assumes "add_time this_info t ti = Inr ti'" and "grid_ok ti"
  shows "grid_ok ti' \<and> set (fst ti') = insert t (set (fst ti))"
proof (cases ti)
  case (Pair times0 infos)
  show ?thesis
  proof (cases "index_of times0 t")
    case None
    then have "t \<notin> set times0" by (simp add: index_of_None)
    then show ?thesis using assms Pair None by (auto simp: add_time_def grid_ok_def)
  next
    case (Some ind)
    then have "t \<in> set times0" using index_of_None [of times0 t] by auto
    then show ?thesis using assms Pair Some
      by (auto simp: add_time_def grid_ok_def bind_err_def split: sum.splits dest: append_at_length)
  qed
qed

lemma add_times_grid:
  assumes "fold_err (add_time this_info) ts ti = Inr ti'" and "grid_ok ti"
  shows "grid_ok ti' \<and> set (fst ti') = set (fst ti) \<union> set ts"
  using assms
proof (induction ts arbitrary: ti)
  case Nil
  then show ?case by simp
next
  case (Cons t ts)
  from Cons.prems(1) obtain ti1 where ti1: "add_time this_info t ti = Inr ti1"
      "fold_err (add_time this_info) ts ti1 = Inr ti'"
    by (auto split: sum.splits)
  from add_time_grid [OF ti1(1) Cons.prems(2)] have g: "grid_ok ti1" "set (fst ti1) = insert t (set (fst ti))"
    by simp_all
  from Cons.IH [OF ti1(2) g(1)] g(2) show ?case by auto
qed

lemma float_times_Some [simp]:
  "float_times \<lparr>info_dataset = d, info_component = c, info_kind = k, info_needs_mesh = n,
                 info_times = map Some ts\<rparr> = ts"
  by (induction ts) (auto simp: float_times_def)

lemma add_info_by_time_ok:
  assumes "add_info_by_time b dataset kind this_times component st = Inr st'" and "plan_ok st"
  shows "plan_ok st' \<and> set (fst st') = set (fst st) \<union> set this_times"
proof -
  obtain times0 infos needed_syns where st: "st = (times0, infos, needed_syns)" by (cases st)
  from assms(1) st obtain nm ti where
    nm: "needs_mesh b dataset kind component = Inr nm"
    and ti: "fold_err (add_time \<lparr>info_dataset = dataset, info_component = component, info_kind = kind,
                           info_needs_mesh = nm, info_times = map Some this_times\<rparr>) this_times (times0, infos) = Inr ti"
    and st': "st' = (fst ti, snd ti, needed_syns @ [\<lparr>info_dataset = dataset, info_component = component, info_kind = kind,
                           info_needs_mesh = nm, info_times = map Some this_times\<rparr>])"
    by (auto simp: add_info_by_time_def bind_err_def Let_def split: sum.splits)
  have g: "grid_ok (times0, infos)" using assms(2) st by (simp add: plan_ok_def)
  from add_times_grid [OF ti g] have g': "grid_ok ti" "set (fst ti) = set times0 \<union> set this_times"
    by simp_all
  show ?thesis using g' st st' assms(2) by (auto simp: plan_ok_def)
qed

lemma add_infos_by_time_ok:
  assumes "fold_err (add_info_by_time b dataset kind this_times) cs st = Inr st'" and "plan_ok st"
  shows "plan_ok st' \<and> set (fst st) \<subseteq> set (fst st') \<and> (cs \<noteq> [] \<longrightarrow> set this_times \<subseteq> set (fst st'))"
  using assms
proof (induction cs arbitrary: st)
  case Nil
  then show ?case by simp
next
  case (Cons c cs)
  from Cons.prems(1) obtain st1 where st1: "add_info_by_time b dataset kind this_times c st = Inr st1"
      "fold_err (add_info_by_time b dataset kind this_times) cs st1 = Inr st'"
    by (auto split: sum.splits)
  from add_info_by_time_ok [OF st1(1) Cons.prems(2)]
  have a: "plan_ok st1" "set (fst st1) = set (fst st) \<union> set this_times" by simp_all
  from Cons.IH [OF st1(2) a(1)] a(2) show ?case by auto
qed

lemma extract_component_by_time_ok:
  assumes "extract_component_by_time b provided_times allow_oversample dataset component st = Inr st'"
    and "plan_ok st"
  shows "plan_ok st' \<and> set (fst st) \<subseteq> set (fst st')"
  using assms
  by (auto simp: extract_component_by_time_def Let_def bind_err_def
      split: if_splits option.splits sum.splits dest: add_infos_by_time_ok)

lemma extract_component_by_time_adds:
  assumes "extract_component_by_time b provided_times allow_oversample dataset component st = Inr st'"
    and "plan_ok st"
    and "\<not> (component = None \<and> b_obs_kind b dataset component \<notin> set [''lc'', ''mesh''])"
    and "b_get_times b dataset component (timequalifier_by_kind (b_obs_kind b dataset component)) = Some ts"
    and "resolve_times b provided_times allow_oversample dataset (b_obs_kind b dataset component) ts = Inr this_times"
    and "components_of b (b_obs_kind b dataset component) component \<noteq> []"
  shows "set this_times \<subseteq> set (fst st')"
proof (cases "this_times = []")
  case True
  then show ?thesis by simp
next
  case False
  have "fold_err (add_info_by_time b dataset (b_obs_kind b dataset component) this_times)
          (components_of b (b_obs_kind b dataset component) component) st = Inr st'"
    using assms(1,3,4,5) False
    by (simp add: extract_component_by_time_def Let_def bind_err_def split: if_splits)
  from add_infos_by_time_ok [OF this assms(2)] assms(6) show ?thesis by simp
qed

lemma extract_components_by_time_ok:
  assumes "fold_err (extract_component_by_time b provided_times allow_oversample dataset) cs st = Inr st'"
    and "plan_ok st"
  shows "plan_ok st' \<and> set (fst st) \<subseteq> set (fst st')"
  using assms
proof (induction cs arbitrary: st)
  case Nil
  then show ?case by simp
next
  case (Cons c cs)
  from Cons.prems(1) obtain st1 where
    st1: "extract_component_by_time b provided_times allow_oversample dataset c st = Inr st1"
      "fold_err (extract_component_by_time b provided_times allow_oversample dataset) cs st1 = Inr st'"
    by (auto split: sum.splits)
  from extract_component_by_time_ok [OF st1(1) Cons.prems(2)]
  have a: "plan_ok st1" "set (fst st) \<subseteq> set (fst st1)" by simp_all
  from Cons.IH [OF st1(2) a(1)] a(2) show ?case by auto
qed

lemma extract_dataset_by_time_ok:
  assumes "extract_dataset_by_time b provided_times allow_oversample dataset st = Inr st'"
    and "plan_ok st"
  shows "plan_ok st' \<and> set (fst st) \<subseteq> set (fst st')"
  using assms
  by (auto simp: extract_dataset_by_time_def split: if_splits option.splits
      dest: extract_components_by_time_ok)

lemma extract_datasets_by_time_ok:
  assumes "fold_err (extract_dataset_by_time b provided_times allow_oversample) ds st = Inr st'"
    and "plan_ok st"
  shows "plan_ok st' \<and> set (fst st) \<subseteq> set (fst st')"
  using assms
proof (induction ds arbitrary: st)
  case Nil
  then show ?case by simp
next
  case (Cons d ds)
  from Cons.prems(1) obtain st1 where
    st1: "extract_dataset_by_time b provided_times allow_oversample d st = Inr st1"
      "fold_err (extract_dataset_by_time b provided_times allow_oversample) ds st1 = Inr st'"
    by (auto split: sum.splits)
  from extract_dataset_by_time_ok [OF st1(1) Cons.prems(2)]
  have a: "plan_ok st1" "set (fst st) \<subseteq> set (fst st1)" by simp_all
  from Cons.IH [OF st1(2) a(1)] a(2) show ?case by auto
qed

lemma extract_dataset_by_time_adds:
  assumes "extract_dataset_by_time b provided_times allow_oversample dataset st = Inr st'"
    and "plan_ok st"
    and "dataset \<noteq> ''_default''" and "b_enabled b dataset = Some True"
    and "component \<in> set (map Some (b_stars b) @ [None])"
    and "\<not> (component = None \<and> b_obs_kind b dataset component \<notin> set [''lc'', ''mesh''])"
    and "b_get_times b dataset component (timequalifier_by_kind (b_obs_kind b dataset component)) = Some ts"
    and "resolve_times b provided_times allow_oversample dataset (b_obs_kind b dataset component) ts = Inr this_times"
    and "components_of b (b_obs_kind b dataset component) component \<noteq> []"
  shows "set this_times \<subseteq> set (fst st')"
proof -
  have run: "fold_err (extract_component_by_time b provided_times allow_oversample dataset)
               (map Some (b_stars b) @ [None]) st = Inr st'"
    using assms(1,3,4) by (simp add: extract_dataset_by_time_def)
  have "\<exists>s1 s2. plan_ok s1 \<and>
           extract_component_by_time b provided_times allow_oversample dataset component s1 = Inr s2 \<and>
           set (fst s2) \<subseteq> set (fst st')"
    using fold_err_visit [OF run assms(5), where P = plan_ok and R = "\<lambda>s s'. set (fst s) \<subseteq> set (fst s')",
            OF assms(2)]
      extract_component_by_time_ok
    by blast
  then obtain s1 s2 where s: "plan_ok s1"
      "extract_component_by_time b provided_times allow_oversample dataset component s1 = Inr s2"
      "set (fst s2) \<subseteq> set (fst st')"
    by blast
  from extract_component_by_time_adds [OF s(2) s(1) assms(6,7,8,9)] s(3) show ?thesis by blast
qed

lemma extract_datasets_by_time_adds:
  assumes "fold_err (extract_dataset_by_time b provided_times allow_oversample) ds st = Inr st'"
    and "plan_ok st" and "dataset \<in> set ds"
    and "dataset \<noteq> ''_default''" and "b_enabled b dataset = Some True"
    and "component \<in> set (map Some (b_stars b) @ [None])"
    and "\<not> (component = None \<and> b_obs_kind b dataset component \<notin> set [''lc'', ''mesh''])"
    and "b_get_times b dataset component (timequalifier_by_kind (b_obs_kind b dataset component)) = Some ts"
    and "resolve_times b provided_times allow_oversample dataset (b_obs_kind b dataset component) ts = Inr this_times"
    and "components_of b (b_obs_kind b dataset component) component \<noteq> []"
  shows "set this_times \<subseteq> set (fst st')"
proof -
  have "\<exists>s1 s2. plan_ok s1 \<and>
           extract_dataset_by_time b provided_times allow_oversample dataset s1 = Inr s2 \<and>
           set (fst s2) \<subseteq> set (fst st')"
    using fold_err_visit [OF assms(1) assms(3), where P = plan_ok and R = "\<lambda>s s'. set (fst s) \<subseteq> set (fst s')",
            OF assms(2)]
      extract_dataset_by_time_ok
    by blast
  then obtain s1 s2 where s: "plan_ok s1"
      "extract_dataset_by_time b provided_times allow_oversample dataset s1 = Inr s2"
      "set (fst s2) \<subseteq> set (fst st')"
    by blast
  from extract_dataset_by_time_adds [OF s(2) s(1) assms(4,5,6,7,8,9,10)] s(3) show ?thesis by blast
qed

lemma handle_protomesh_result:
  "handle_protomesh b needed_syns infos = (n', i') \<Longrightarrow>
   i' = infos \<and> (\<forall>x \<in> set n'. x \<in> set needed_syns \<or> (info_dataset x = ''protomesh'' \<and> float_times x = []))"
  by (auto simp: handle_protomesh_def fold_snoc float_times_def split: if_splits)

lemma set_update_subset: "set (AList.update k v al) \<subseteq> insert (k, v) (set al)"
  by (induction al) auto

lemma set_dict_of_subset: "set (dict_of kvs) \<subseteq> set kvs"
proof -
  have "set (fold (\<lambda>(k, v) d. AList.update k v d) kvs acc) \<subseteq> set acc \<union> set kvs" for acc
  proof (induction kvs arbitrary: acc)
    case Nil
    then show ?case by simp
  next
    case (Cons kv kvs)
    obtain k v where kv: "kv = (k, v)" by (cases kv)
    have "set (fold (\<lambda>(k, v) d. AList.update k v d) kvs (AList.update k v acc))
            \<subseteq> set (AList.update k v acc) \<union> set kvs"
      by (rule Cons.IH)
    also have "\<dots> \<subseteq> set acc \<union> set (kv # kvs)"
      using set_update_subset [of k v acc] kv by auto
    finally show ?case using kv by simp
  qed
  from this [of "[]"] show ?thesis by (simp add: dict_of_def)
qed

lemma needs_mesh_infos_subset: "set (needs_mesh_infos needed_syns) \<subseteq> set needed_syns"
proof -
  have "set (needs_mesh_infos needed_syns)
          \<subseteq> snd ` set [(info_dataset i, i). i \<leftarrow> needed_syns,
                        info_needs_mesh i \<and> info_kind i \<notin> set [''mesh'']]"
    unfolding needs_mesh_infos_def set_map by (rule image_mono) (rule set_dict_of_subset)
  then show ?thesis by auto
qed

lemma automesh_times_subset:
  "set (automesh_times (needs_mesh_infos needed_syns)) \<subseteq> (\<Union>i \<in> set needed_syns. set (float_times i))"
  using needs_mesh_infos_subset [of needed_syns] by (auto simp: automesh_times_def)

lemma register_automesh_length:
  "register_automesh times0 this_info this_times infos = Inr infos' \<Longrightarrow> length infos' = length infos"
proof -
  have "fold_err (\<lambda>time infos'.
                 (case index_of ts time of
                    None \<Rightarrow> Inl (ValueError ''is not in list'')
                  | Some ind \<Rightarrow> append_at ind this_info infos')) tl infos = Inr infos'
        \<Longrightarrow> length infos' = length infos" for ts tl
    by (induction tl arbitrary: infos)
      (auto split: sum.splits option.splits dest: append_at_length)
  then show "register_automesh times0 this_info this_times infos = Inr infos' \<Longrightarrow> length infos' = length infos"
    by (auto simp: register_automesh_def split: option.splits if_splits)
qed

lemma handle_automesh_result:
  assumes "handle_automesh b needed_syns infos times0 = Inr (n', i')"
  shows "length i' = length infos \<and>
         (\<forall>x \<in> set n'. x \<in> set needed_syns \<or>
            (info_dataset x = ''pbmesh'' \<and>
             float_times x = automesh_times (needs_mesh_infos needed_syns)))"
proof (cases "b_compute_kind b \<in> set backends_that_support_automesh")
  case False
  then show ?thesis using assms by (simp add: handle_automesh_def)
next
  case True
  let ?f = "\<lambda>component acc.
             (let this_times = automesh_times (needs_mesh_infos needed_syns);
                  this_info = \<lparr>info_dataset = ''pbmesh'', info_component = Some component,
                               info_kind = ''mesh'', info_needs_mesh = True,
                               info_times = map Some this_times\<rparr>
              in bind_err (register_automesh times0 this_info this_times (snd acc)) (\<lambda>infos'.
                   Inr (fst acc @ [this_info], infos')))"
  have run: "fold_err ?f (b_meshables b) (needed_syns, infos) = Inr (n', i')"
    using assms True by (simp add: handle_automesh_def Let_def)
  have "fold_err ?f ms acc = Inr acc' \<Longrightarrow>
        length (snd acc') = length (snd acc) \<and>
        (\<forall>x \<in> set (fst acc'). x \<in> set (fst acc) \<or>
            (info_dataset x = ''pbmesh'' \<and>
             float_times x = automesh_times (needs_mesh_infos needed_syns)))" for ms acc acc'
  proof (induction ms arbitrary: acc)
    case Nil
    then show ?case by simp
  next
    case (Cons m ms)
    from Cons.prems obtain acc1 where a: "?f m acc = Inr acc1" "fold_err ?f ms acc1 = Inr acc'"
      by (auto split: sum.splits)
    from a(1) have "length (snd acc1) = length (snd acc) \<and>
        (\<forall>x \<in> set (fst acc1). x \<in> set (fst acc) \<or>
            (info_dataset x = ''pbmesh'' \<and>
             float_times x = automesh_times (needs_mesh_infos needed_syns)))"
      by (auto simp: Let_def bind_err_def split: sum.splits dest: register_automesh_length)
    with Cons.IH [OF a(2)] show ?case by auto
  qed
  from this [OF run] show ?thesis by simp
qed

lemma virtual_datasets_result:
  assumes "virtual_datasets b protomesh pbmesh times0 needed_syns infos = Inr (n', i')"
  shows "length i' = length infos \<and>
         (\<forall>x \<in> set n'. x \<in> set needed_syns \<or>
            set (float_times x) \<subseteq> (\<Union>i \<in> set needed_syns. set (float_times i)))"
proof -
  obtain n1 i1 where p: "(if protomesh then handle_protomesh b needed_syns infos else (needed_syns, infos)) = (n1, i1)"
    by (cases "if protomesh then handle_protomesh b needed_syns infos else (needed_syns, infos)")
  have i1: "i1 = infos" and n1: "\<forall>x \<in> set n1. x \<in> set needed_syns \<or> float_times x = []"
    using p handle_protomesh_result [of b needed_syns infos n1 i1] by (auto split: if_splits)
  have a: "(if pbmesh then handle_automesh b n1 i1 times0 else Inr (n1, i1)) = Inr (n', i')"
    using assms p by (auto simp: virtual_datasets_def Let_def)
  have i2: "length i' = length i1"
    and n2: "\<forall>x \<in> set n'. x \<in> set n1 \<or> float_times x = automesh_times (needs_mesh_infos n1)"
    using a handle_automesh_result [of b n1 i1 times0 n' i'] by (auto split: if_splits)
  have u: "(\<Union>i \<in> set n1. set (float_times i)) \<subseteq> (\<Union>i \<in> set needed_syns. set (float_times i))"
  proof
    fix t assume "t \<in> (\<Union>i \<in> set n1. set (float_times i))"
    then obtain x where x: "x \<in> set n1" "t \<in> set (float_times x)" by blast
    with n1 have "x \<in> set needed_syns" by fastforce
    with x(2) show "t \<in> (\<Union>i \<in> set needed_syns. set (float_times i))" by blast
  qed
  have am: "set (automesh_times (needs_mesh_infos n1)) \<subseteq> (\<Union>i \<in> set needed_syns. set (float_times i))"
    using automesh_times_subset [of n1] u by blast
  have "\<forall>x \<in> set n'. x \<in> set needed_syns \<or>
            set (float_times x) \<subseteq> (\<Union>i \<in> set needed_syns. set (float_times i))"
  proof
    fix x assume "x \<in> set n'"
    with n2 consider "x \<in> set n1" | "float_times x = automesh_times (needs_mesh_infos n1)" by blast
    then show "x \<in> set needed_syns \<or>
            set (float_times x) \<subseteq> (\<Union>i \<in> set needed_syns. set (float_times i))"
    proof cases
      case 1
      with n1 consider "x \<in> set needed_syns" | "float_times x = []" by blast
      then show ?thesis by cases simp_all
    next
      case 2
      then show ?thesis using am by simp
    qed
  qed
  then show ?thesis using i2 i1 by simp
qed

lemma syn_info_create_syns: "map syn_info (create_syns needed_syns) = needed_syns"
  by (simp add: create_syns_def Let_def comp_def)

lemma count_list_distinct: "distinct xs \<Longrightarrow> x \<in> set xs \<Longrightarrow> count_list xs x = 1"
  by (induction xs) auto

text \<open>What the planner by time returns, in terms of the state its loops end in.\<close>

lemma by_time_result:
  assumes "extract_from_bundle_by_time b protomesh pbmesh provided_times allow_oversample = Inr (grid, infos, syns)"
  shows "\<exists>times0 infos0 needed0.
           fold_err (extract_dataset_by_time b provided_times allow_oversample) (b_datasets b) ([], [], [])
             = Inr (times0, infos0, needed0) \<and>
           sorted grid \<and> distinct grid \<and> set grid = set times0 \<and>
           (\<forall>x \<in> set syns. set (float_times (syn_info x)) \<subseteq> set grid)"
proof -
  from assms obtain times0 infos0 needed0 where
    run: "fold_err (extract_dataset_by_time b provided_times allow_oversample) (b_datasets b) ([], [], [])
             = Inr (times0, infos0, needed0)"
    by (auto simp: extract_from_bundle_by_time_def bind_err_def split: sum.splits)
  have "plan_ok ([], [], [])" by (simp add: plan_ok_def grid_ok_def)
  from extract_datasets_by_time_ok [OF run this] have ok: "plan_ok (times0, infos0, needed0)" by simp
  from assms run obtain n2 i2 where
    a: "virtual_datasets b protomesh pbmesh (Some times0) needed0 infos0 = Inr (n2, i2)"
    and res: "(grid, infos, syns) =
        (if times0 \<noteq> [] then (map fst (sort_key fst (zip times0 i2)), map snd (sort_key fst (zip times0 i2)),
                                 create_syns n2)
         else (times0, i2, create_syns n2))"
    by (auto simp: extract_from_bundle_by_time_def bind_err_def Let_def split: sum.splits if_splits)
  from virtual_datasets_result [OF a]
  have i2: "length i2 = length infos0"
    and n2: "\<forall>x \<in> set n2. x \<in> set needed0 \<or>
            set (float_times x) \<subseteq> (\<Union>i \<in> set needed0. set (float_times i))"
    by simp_all
  have len: "length i2 = length times0" using i2 ok by (simp add: plan_ok_def grid_ok_def)
  have dist: "distinct times0" using ok by (simp add: plan_ok_def grid_ok_def)
  have needed0: "\<forall>x \<in> set needed0. set (float_times x) \<subseteq> set times0" using ok by (simp add: plan_ok_def)
  then have u: "(\<Union>i \<in> set needed0. set (float_times i)) \<subseteq> set times0" by auto
  have n2': "\<forall>x \<in> set n2. set (float_times x) \<subseteq> set times0"
  proof
    fix x assume "x \<in> set n2"
    with n2 consider "x \<in> set needed0"
      | "set (float_times x) \<subseteq> (\<Union>i \<in> set needed0. set (float_times i))" by blast
    then show "set (float_times x) \<subseteq> set times0" using needed0 u by cases auto
  qed
  have fst_sorted: "map fst (sort_key fst (zip times0 i2)) = sort times0"
  proof -
    have "map fst (zip times0 i2) = times0" using len by simp
    then have m: "mset (map fst (sort_key fst (zip times0 i2))) = mset times0"
      by (metis mset_map mset_sort)
    have s: "sorted (map fst (sort_key fst (zip times0 i2)))" by (rule sorted_sort_key)
    show ?thesis using properties_for_sort [OF m s] by simp
  qed
  have grid: "grid = sort times0" using res fst_sorted by (auto split: if_splits)
  have syns: "map syn_info syns = n2" using res by (auto simp: syn_info_create_syns split: if_splits)
  have "\<forall>x \<in> set syns. set (float_times (syn_info x)) \<subseteq> set grid"
  proof
    fix x assume "x \<in> set syns"
    then have "syn_info x \<in> set n2" using syns by (metis image_eqI set_map)
    then show "set (float_times (syn_info x)) \<subseteq> set grid" using n2' grid by simp
  qed
  then show ?thesis using run grid dist by auto
qed

text \<open>
  C1. When the planner by time returns, its grid is strictly ascending, so without
  duplicates; every time of every work item it made containers for is in the grid exactly
  once; and so is every time of the resolved time array of every enabled dataset and
  component the loops reach (the array after the override and the oversampling), provided
  the array is planned for at least one component.
\<close>

theorem by_time_grid:
  assumes "extract_from_bundle_by_time b protomesh pbmesh provided_times allow_oversample = Inr (grid, infos, syns)"
  shows "sorted_wrt (<) grid \<and> distinct grid
     \<and> (\<forall>s \<in> set syns. \<forall>t \<in> set (float_times (syn_info s)). count_list grid t = 1)
     \<and> (\<forall>dataset \<in> set (b_datasets b). \<forall>component \<in> set (map Some (b_stars b) @ [None]).
          \<forall>ts this_times.
            dataset \<noteq> ''_default'' \<and> b_enabled b dataset = Some True \<and>
            \<not> (component = None \<and> b_obs_kind b dataset component \<notin> set [''lc'', ''mesh'']) \<and>
            b_get_times b dataset component (timequalifier_by_kind (b_obs_kind b dataset component)) = Some ts \<and>
            resolve_times b provided_times allow_oversample dataset (b_obs_kind b dataset component) ts
              = Inr this_times \<and>
            components_of b (b_obs_kind b dataset component) component \<noteq> []
            \<longrightarrow> (\<forall>t \<in> set this_times. count_list grid t = 1))"
proof -
  from by_time_result [OF assms] obtain times0 infos0 needed0 where
    run: "fold_err (extract_dataset_by_time b provided_times allow_oversample) (b_datasets b) ([], [], [])
             = Inr (times0, infos0, needed0)"
    and sorted: "sorted grid" and dist: "distinct grid" and grid: "set grid = set times0"
    and items: "\<forall>x \<in> set syns. set (float_times (syn_info x)) \<subseteq> set grid"
    by blast
  have ok0: "plan_ok ([], [], [])" by (simp add: plan_ok_def grid_ok_def)
  have strict: "sorted_wrt (<) grid" using sorted dist by (simp add: strict_sorted_iff)
  have a: "\<forall>s \<in> set syns. \<forall>t \<in> set (float_times (syn_info s)). count_list grid t = 1"
    using items dist by (meson count_list_distinct subsetD)
  have b: "\<forall>t \<in> set this_times. count_list grid t = 1"
    if "dataset \<in> set (b_datasets b)" "component \<in> set (map Some (b_stars b) @ [None])"
      "dataset \<noteq> ''_default''" "b_enabled b dataset = Some True"
      "\<not> (component = None \<and> b_obs_kind b dataset component \<notin> set [''lc'', ''mesh''])"
      "b_get_times b dataset component (timequalifier_by_kind (b_obs_kind b dataset component)) = Some ts"
      "resolve_times b provided_times allow_oversample dataset (b_obs_kind b dataset component) ts
              = Inr this_times"
      "components_of b (b_obs_kind b dataset component) component \<noteq> []"
    for dataset component ts this_times
  proof -
    from extract_datasets_by_time_adds [OF run ok0 that(1,3,4,2,5,6,7,8)]
    have "set this_times \<subseteq> set grid" using grid by simp
    then show ?thesis using dist by (meson count_list_distinct subsetD)
  qed
  show ?thesis using strict dist a b by blast
qed

text \<open>
  C1 on the binary: the grid of its four distinct times, and the times of the secondary's
  radial velocities in it.
\<close>

theorem by_time_grid_witness:
  "map_sum id fst (extract_from_bundle_by_time binary False True None True) = Inr [0, 1 / 2, 1, 2] \<and>
   sorted_wrt (<) [0, 1 / 2, 1, 2 :: rat] \<and>
   resolve_times binary None True ''rv01'' ''rv'' [2, 1 / 2] = Inr [2, 1 / 2] \<and>
   count_list [0, 1 / 2, 1, 2 :: rat] 2 = 1 \<and> count_list [0, 1 / 2, 1, 2 :: rat] (1 / 2) = 1"
proof -
  have e: "map_sum id fst (extract_from_bundle_by_time binary False True None True) = Inr [0, 1 / 2, 1, 2]"
    by code_simp
  then obtain infos syns where
    r: "extract_from_bundle_by_time binary False True None True = Inr ([0, 1 / 2, 1, 2], infos, syns)"
    by (cases "extract_from_bundle_by_time binary False True None True") auto
  have rt: "resolve_times binary None True ''rv01'' ''rv'' [2, 1 / 2] = Inr [2, 1 / 2]"
    by code_simp
  have d: "''rv01'' \<in> set (b_datasets binary)" by (simp add: binary_def)
  have c: "Some ''secondary'' \<in> set (map Some (b_stars binary) @ [None])" by (simp add: binary_def)
  have h: "''rv01'' \<noteq> ''_default'' \<and> b_enabled binary ''rv01'' = Some True \<and>
      \<not> (Some ''secondary'' = None \<and> b_obs_kind binary ''rv01'' (Some ''secondary'') \<notin> set [''lc'', ''mesh'']) \<and>
      b_get_times binary ''rv01'' (Some ''secondary'')
        (timequalifier_by_kind (b_obs_kind binary ''rv01'' (Some ''secondary''))) = Some [2, 1 / 2] \<and>
      resolve_times binary None True ''rv01'' (b_obs_kind binary ''rv01'' (Some ''secondary'')) [2, 1 / 2]
        = Inr [2, 1 / 2] \<and>
      components_of binary (b_obs_kind binary ''rv01'' (Some ''secondary'')) (Some ''secondary'') \<noteq> []"
    using rt by (simp add: binary_def components_of_def)
  note g = by_time_grid [OF r]
  have s: "sorted_wrt (<) [0, 1 / 2, 1, 2 :: rat]" using g by (rule conjunct1)
  note a = g [THEN conjunct2, THEN conjunct2, THEN conjunct2]
  from a [THEN bspec, OF d, THEN bspec, OF c, THEN spec, THEN spec, THEN mp, OF h]
  have "\<forall>t \<in> set [2, 1 / 2 :: rat]. count_list [0, 1 / 2, 1, 2 :: rat] t = 1" .
  then have "count_list [0, 1 / 2, 1, 2 :: rat] 2 = 1" "count_list [0, 1 / 2, 1, 2 :: rat] (1 / 2) = 1"
    by simp_all
  with e s rt show ?thesis by (intro conjI)
qed

subsection \<open>Oversampling over the exposure\<close>

text \<open>
  With two or more samples \<^verbatim>\<open>linspace\<close> gives the window the claim describes: the count
  asked for, from \<open>t - exptime / 2\<close> to \<open>t + exptime / 2\<close>, equally spaced and symmetric about \<open>t\<close>.
\<close>

lemma upt_last_split: "0 < m \<Longrightarrow> [0 ..< m] = [0 ..< m - 1] @ [m - 1]"
  by (cases m) simp_all

lemma exposure_window_split:
  assumes "2 \<le> n"
  shows "exposure_window t exptime n =
      map (\<lambda>i. t - exptime / 2 + of_nat i * (exptime / of_int (n - 1))) [0 ..< nat n - 1]
      @ [t + exptime / 2]"
proof -
  have pos: "0 < nat n" using assms by simp
  have "int (nat n - 1) = n - 1" using assms by linarith
  then have "(of_int (int (nat n - 1)) :: rat) = of_int (n - 1)" by (rule arg_cong)
  then have l: "(of_nat (nat n - 1) :: rat) = of_int (n - 1)" by (simp only: of_int_of_nat_eq)
  have nz: "(of_int (n - 1) :: rat) \<noteq> 0" using assms by simp
  have e: "t - exptime / 2 + of_nat (nat n - 1) * (exptime / of_int (n - 1)) = t + exptime / 2"
    unfolding l using nz by (simp add: field_simps)
  have "exposure_window t exptime n =
      map (\<lambda>i. t - exptime / 2 + of_nat i * (exptime / of_int (n - 1))) ([0 ..< nat n - 1] @ [nat n - 1])"
    unfolding exposure_window_def using upt_last_split [OF pos] by simp
  then show ?thesis using e by simp
qed

lemma linspace_exposure:
  assumes "2 \<le> n"
  shows "linspace (t - exptime / 2) (t + exptime / 2) n = Inr (exposure_window t exptime n)"
proof -
  have "(t + exptime / 2) - (t - exptime / 2) = exptime" by simp
  then show ?thesis
    using assms unfolding exposure_window_split [OF assms] by (simp add: linspace_def)
qed

lemma exposure_window_length: "length (exposure_window t exptime n) = nat n"
  by (simp add: exposure_window_def)

lemma exposure_window_ends:
  assumes "2 \<le> n"
  shows "hd (exposure_window t exptime n) = t - exptime / 2"
    and "last (exposure_window t exptime n) = t + exptime / 2"
proof -
  have "[0 ..< nat n] = 0 # [1 ..< nat n]" using assms by (simp add: upt_conv_Cons)
  then show "hd (exposure_window t exptime n) = t - exptime / 2"
    by (simp add: exposure_window_def)
  show "last (exposure_window t exptime n) = t + exptime / 2"
    unfolding exposure_window_split [OF assms] by simp
qed

lemma exposure_window_centred:
  assumes "2 \<le> n" and "i < nat n"
  shows "exposure_window t exptime n ! i + exposure_window t exptime n ! (nat n - 1 - i) = 2 * t"
proof -
  have nz: "(of_int (n - 1) :: rat) \<noteq> 0" using assms by simp
  have "int i + int (nat n - 1 - i) = n - 1" using assms by linarith
  then have "(of_int (int i + int (nat n - 1 - i)) :: rat) = of_int (n - 1)" by (rule arg_cong)
  then have s: "(of_nat i + of_nat (nat n - 1 - i) :: rat) = of_int (n - 1)"
    by (simp only: of_int_add of_int_of_nat_eq)
  have j: "nat n - 1 - i < nat n" using assms by simp
  have "exposure_window t exptime n ! i + exposure_window t exptime n ! (nat n - 1 - i)
        = 2 * t - exptime + (of_nat i + of_nat (nat n - 1 - i)) * (exptime / of_int (n - 1))"
    using assms(2) j by (simp add: exposure_window_def algebra_simps del: of_nat_diff)
  also have "\<dots> = 2 * t" unfolding s using nz by simp
  finally show ?thesis .
qed

text \<open>
  The scenario of the claim: an exposure of 1/10, three samples, the time 5.
\<close>

lemma exposure_scenario:
  "resolve_times (exposed 3) None True ''lc01'' ''lc'' [5] = Inr [99 / 20, 5, 101 / 20]"
  by code_simp

text \<open>
  C5 at an oversample count of 1. Oversampling applies, and the time 5 with an exposure of
  1/10 is replaced by the single time 5 - 1/20 = 99/20, the start of the exposure, which is
  also the only time of the grid: the sample is neither at the time of the dataset nor
  does it span the exposure.
\<close>

theorem single_sample_at_exposure_start:
  "oversample_applies (exposed 1) True ''lc01'' ''lc'' = Inr True \<and>
   resolve_times (exposed 1) None True ''lc01'' ''lc'' [5] = Inr [5 - (1 / 10) / 2] \<and>
   map_sum id fst (extract_from_bundle_by_time (exposed 1) False False None True) = Inr [99 / 20]"
  by code_simp

subsection \<open>The times of the automesh\<close>

text \<open>
  C6 on radial velocities with different times for the two stars (1 for the primary, 2 and
  1/2 for the secondary; both work items need the mesh). The grid is 1/2, 1, 2; the two
  automesh items have the times 1/2 and 2 alone, since line 302 keeps one work item for
  each dataset; the times of all the mesh-requiring items are 1/2, 1 and 2.
\<close>

theorem automesh_misses_times:
  "map_sum id fst (extract_from_bundle_by_time rv_only False True None True) = Inr [1 / 2, 1, 2] \<and>
   map_sum id (\<lambda>r. automesh_arrays (snd (snd r))) (extract_from_bundle_by_time rv_only False True None True)
     = Inr [[Some (1 / 2), Some 2], [Some (1 / 2), Some 2]] \<and>
   map_sum id (\<lambda>r. mesh_requiring_times (map syn_info (snd (snd r))))
     (extract_from_bundle_by_time rv_only False True None True) = Inr [1 / 2, 1, 2]"
  by code_simp

subsection \<open>An empty list of times passed in\<close>

lemma override_times_empty: "override_times (Some []) ts = []"
  by (simp add: override_times_def)

lemma override_times_of_empty: "override_times p [] = []"
  by (simp add: override_times_def split: option.splits)

lemma resolve_times_empty:
  "resolve_times b (Some []) allow_oversample dataset kind ts = Inr this_times \<Longrightarrow> this_times = []"
  by (auto simp: resolve_times_def override_times_empty oversampled_times_def bind_err_def Let_def
      split: sum.splits if_splits)

lemma resolve_times_empty_returns:
  assumes "b_exptime b dataset \<noteq> None" "b_fti_method b dataset \<noteq> None" "b_fti_oversample b dataset \<noteq> None"
  shows "resolve_times b (Some []) allow_oversample dataset kind ts = Inr []"
  using assms
  by (auto simp: resolve_times_def override_times_empty oversampled_times_def oversample_applies_def
      get_value_def bind_err_def Let_def)

lemma extract_component_by_time_empty:
  "extract_component_by_time b (Some []) allow_oversample dataset component st = Inr st' \<Longrightarrow> st' = st"
  by (auto simp: extract_component_by_time_def Let_def bind_err_def
      split: if_splits option.splits sum.splits dest: resolve_times_empty)

lemma extract_component_by_time_empty_returns:
  assumes "b_exptime b dataset \<noteq> None" "b_fti_method b dataset \<noteq> None" "b_fti_oversample b dataset \<noteq> None"
  shows "extract_component_by_time b (Some []) allow_oversample dataset component st = Inr st"
  using resolve_times_empty_returns [OF assms]
  by (simp add: extract_component_by_time_def Let_def bind_err_def split: option.splits)

lemma extract_dataset_by_time_empty:
  "extract_dataset_by_time b (Some []) allow_oversample dataset st = Inr st' \<Longrightarrow> st' = st"
  by (auto simp: extract_dataset_by_time_def split: if_splits option.splits
      dest: fold_err_unchanged [OF _ extract_component_by_time_empty])

lemma extract_dataset_by_time_empty_returns:
  assumes "b_exptime b dataset \<noteq> None" "b_fti_method b dataset \<noteq> None" "b_fti_oversample b dataset \<noteq> None"
  shows "extract_dataset_by_time b (Some []) allow_oversample dataset st = Inr st"
  using fold_err_returns [of "map Some (b_stars b) @ [None]"
          "extract_component_by_time b (Some []) allow_oversample dataset" st]
        extract_component_by_time_empty_returns [OF assms]
  by (simp add: extract_dataset_by_time_def split: option.splits)

lemma extract_component_by_dataset_empty:
  "extract_component_by_dataset b (Some []) dataset component st = Inr st"
  by (simp add: extract_component_by_dataset_def Let_def override_times_empty split: option.splits)

lemma extract_dataset_by_dataset_empty:
  "extract_dataset_by_dataset b (Some []) dataset st = Inr st"
  using fold_err_returns [of "map Some (b_stars b) @ [None]"
          "extract_component_by_dataset b (Some []) dataset" st]
  by (simp add: extract_dataset_by_dataset_def extract_component_by_dataset_empty split: option.splits)

lemma handle_protomesh_virtual:
  "handle_protomesh b needed_syns infos = (n', i') \<Longrightarrow>
   i' = infos \<and> (\<forall>x \<in> set n'. x \<in> set needed_syns \<or> info_dataset x = ''protomesh'')"
  using handle_protomesh_result [of b needed_syns infos n' i'] by blast

lemma handle_automesh_unregistered:
  assumes "times0 = None \<or> times0 = Some []"
  shows "\<exists>n'. handle_automesh b needed_syns infos times0 = Inr (n', infos) \<and>
           (\<forall>x \<in> set n'. x \<in> set needed_syns \<or> info_dataset x = ''pbmesh'')"
proof (cases "b_compute_kind b \<in> set backends_that_support_automesh")
  case False
  then show ?thesis by (simp add: handle_automesh_def)
next
  case True
  let ?f = "\<lambda>component acc.
             (let this_times = automesh_times (needs_mesh_infos needed_syns);
                  this_info = \<lparr>info_dataset = ''pbmesh'', info_component = Some component,
                               info_kind = ''mesh'', info_needs_mesh = True,
                               info_times = map Some this_times\<rparr>
              in bind_err (register_automesh times0 this_info this_times (snd acc)) (\<lambda>infos'.
                   Inr (fst acc @ [this_info], infos')))"
  have reg: "register_automesh times0 i ts infos' = Inr infos'" for i ts infos'
    using assms by (auto simp: register_automesh_def)
  have "\<exists>n'. fold_err ?f ms (n, infos) = Inr (n', infos) \<and>
          (\<forall>x \<in> set n'. x \<in> set n \<or> info_dataset x = ''pbmesh'')" for ms n
  proof (induction ms arbitrary: n)
    case Nil
    then show ?case by simp
  next
    case (Cons m ms)
    let ?item = "\<lparr>info_dataset = ''pbmesh'', info_component = Some m,
                               info_kind = ''mesh'', info_needs_mesh = True,
                               info_times = map Some (automesh_times (needs_mesh_infos needed_syns))\<rparr>"
    have step: "?f m (n, infos) = Inr (n @ [?item], infos)"
      by (simp add: Let_def reg bind_err_def)
    from Cons.IH [of "n @ [?item]"] obtain n' where
      n': "fold_err ?f ms (n @ [?item], infos) = Inr (n', infos) \<and>
          (\<forall>x \<in> set n'. x \<in> set (n @ [?item]) \<or> info_dataset x = ''pbmesh'')"
      by blast
    have "fold_err ?f (m # ms) (n, infos) = Inr (n', infos)"
      using step n' by simp
    moreover have "\<forall>x \<in> set n'. x \<in> set n \<or> info_dataset x = ''pbmesh''"
      using n' by auto
    ultimately show ?case by blast
  qed
  from this [of "b_meshables b" needed_syns] show ?thesis
    using True by (simp add: handle_automesh_def Let_def)
qed

lemma virtual_datasets_unregistered:
  assumes "times0 = None \<or> times0 = Some []"
  shows "\<exists>n2. virtual_datasets b protomesh pbmesh times0 [] [] = Inr (n2, []) \<and>
              (\<forall>x \<in> set n2. info_dataset x \<in> {''protomesh'', ''pbmesh''})"
proof -
  obtain n1 i1 where p: "(if protomesh then handle_protomesh b [] [] else ([], [])) = (n1, i1)"
    by (cases "if protomesh then handle_protomesh b [] [] else ([], [])")
  have i1: "i1 = []" and n1: "\<forall>x \<in> set n1. info_dataset x = ''protomesh''"
    using p handle_protomesh_virtual [of b "[]" "[]" n1 i1] by (auto split: if_splits)
  from handle_automesh_unregistered [OF assms, of b n1 "[]"] obtain n2 where
    n2: "handle_automesh b n1 [] times0 = Inr (n2, []) \<and>
           (\<forall>x \<in> set n2. x \<in> set n1 \<or> info_dataset x = ''pbmesh'')"
    by blast
  show ?thesis
  proof (cases pbmesh)
    case True
    have "\<forall>x \<in> set n2. info_dataset x \<in> {''protomesh'', ''pbmesh''}" using n1 n2 by auto
    moreover have "virtual_datasets b protomesh pbmesh times0 [] [] = Inr (n2, [])"
      using True p i1 n2 by (simp add: virtual_datasets_def Let_def)
    ultimately show ?thesis by blast
  next
    case False
    have "\<forall>x \<in> set n1. info_dataset x \<in> {''protomesh'', ''pbmesh''}" using n1 by auto
    moreover have "virtual_datasets b protomesh pbmesh times0 [] [] = Inr (n1, [])"
      using False p i1 by (simp add: virtual_datasets_def Let_def)
    ultimately show ?thesis by blast
  qed
qed

lemma create_syns_datasets:
  "\<forall>x \<in> set n. info_dataset x \<in> D \<Longrightarrow> \<forall>s \<in> set (create_syns n). info_dataset (syn_info s) \<in> D"
  using syn_info_create_syns [of n] by (metis image_eqI set_map)

text \<open>
  C10. With the empty list passed as the times, every non-empty time array is replaced by
  the empty one, and an empty time array stays as it is whatever is passed. The planner by
  time then, when it returns, returns an empty grid, no lists of work items, and containers
  of the protomesh and the automesh only; it returns whenever the exposure time, the
  method and the count of the oversampling can be looked up. The planner by dataset
  always returns, with no groupings and containers of the two virtual datasets only.
\<close>

theorem empty_override_plans_nothing:
  "(\<forall>ts. override_times (Some []) ts = [])
   \<and> (\<forall>p. override_times p [] = [])
   \<and> (\<forall>grid infos syns.
        extract_from_bundle_by_time b protomesh pbmesh (Some []) allow_oversample = Inr (grid, infos, syns)
        \<longrightarrow> grid = [] \<and> infos = [] \<and>
            (\<forall>s \<in> set syns. info_dataset (syn_info s) \<in> {''protomesh'', ''pbmesh''}))
   \<and> ((\<forall>d. b_exptime b d \<noteq> None \<and> b_fti_method b d \<noteq> None \<and> b_fti_oversample b d \<noteq> None)
        \<longrightarrow> (\<exists>syns. extract_from_bundle_by_time b protomesh pbmesh (Some []) allow_oversample
                      = Inr ([], [], syns)))
   \<and> (\<exists>syns. extract_from_bundle_by_dataset b protomesh pbmesh (Some []) = Inr ([], syns) \<and>
          (\<forall>s \<in> set syns. info_dataset (syn_info s) \<in> {''protomesh'', ''pbmesh''}))"
proof (intro conjI allI impI)
  show "override_times (Some []) ts = []" for ts by (rule override_times_empty)
  show "override_times p [] = []" for p by (rule override_times_of_empty)
  from virtual_datasets_unregistered [of "Some []" b protomesh pbmesh] obtain n2 where
    n2: "virtual_datasets b protomesh pbmesh (Some []) [] [] = Inr (n2, [])"
        "\<forall>x \<in> set n2. info_dataset x \<in> {''protomesh'', ''pbmesh''}"
    by blast
  have after: "fold_err (extract_dataset_by_time b (Some []) allow_oversample) (b_datasets b) ([], [], [])
                 = Inr ([], [], []) \<Longrightarrow>
               extract_from_bundle_by_time b protomesh pbmesh (Some []) allow_oversample
                 = Inr ([], [], create_syns n2)"
    using n2(1) by (simp add: extract_from_bundle_by_time_def bind_err_def)
  have virt: "\<forall>s \<in> set (create_syns n2). info_dataset (syn_info s) \<in> {''protomesh'', ''pbmesh''}"
    using n2(2) by (rule create_syns_datasets)
  {
    fix grid infos syns
    assume r: "extract_from_bundle_by_time b protomesh pbmesh (Some []) allow_oversample = Inr (grid, infos, syns)"
    then obtain st where st: "fold_err (extract_dataset_by_time b (Some []) allow_oversample) (b_datasets b) ([], [], [])
                 = Inr st"
      by (auto simp: extract_from_bundle_by_time_def bind_err_def split: sum.splits)
    from fold_err_unchanged [OF st extract_dataset_by_time_empty] have "st = ([], [], [])" .
    with st after r have "(grid, infos, syns) = ([], [], create_syns n2)" by simp
    then show "grid = []" "infos = []"
      "\<forall>s \<in> set syns. info_dataset (syn_info s) \<in> {''protomesh'', ''pbmesh''}"
      using virt by simp_all
  }
  {
    assume h: "\<forall>d. b_exptime b d \<noteq> None \<and> b_fti_method b d \<noteq> None \<and> b_fti_oversample b d \<noteq> None"
    have "fold_err (extract_dataset_by_time b (Some []) allow_oversample) (b_datasets b) ([], [], [])
                 = Inr ([], [], [])"
      using h by (intro fold_err_returns extract_dataset_by_time_empty_returns) simp_all
    from after [OF this]
    show "\<exists>syns. extract_from_bundle_by_time b protomesh pbmesh (Some []) allow_oversample
                      = Inr ([], [], syns)" by blast
  }
  from virtual_datasets_unregistered [of None b protomesh pbmesh] obtain n3 where
    n3: "virtual_datasets b protomesh pbmesh None [] [] = Inr (n3, [])"
        "\<forall>x \<in> set n3. info_dataset x \<in> {''protomesh'', ''pbmesh''}"
    by blast
  have "fold_err (extract_dataset_by_dataset b (Some [])) (b_datasets b) ([], [], []) = Inr ([], [], [])"
    by (intro fold_err_returns extract_dataset_by_dataset_empty)
  then have "extract_from_bundle_by_dataset b protomesh pbmesh (Some []) = Inr ([], create_syns n3)"
    using n3(1) by (simp add: extract_from_bundle_by_dataset_def bind_err_def)
  moreover have "\<forall>s \<in> set (create_syns n3). info_dataset (syn_info s) \<in> {''protomesh'', ''pbmesh''}"
    using n3(2) by (rule create_syns_datasets)
  ultimately show "\<exists>syns. extract_from_bundle_by_dataset b protomesh pbmesh (Some []) = Inr ([], syns) \<and>
          (\<forall>s \<in> set syns. info_dataset (syn_info s) \<in> {''protomesh'', ''pbmesh''})"
    by blast
qed

text \<open>
  C10 on the binary, with both virtual datasets asked for.
\<close>

theorem empty_override_plans_nothing_witness:
  "(\<exists>syns. extract_from_bundle_by_time binary True True (Some []) True = Inr ([], [], syns)) \<and>
   (\<exists>syns. extract_from_bundle_by_dataset binary True True (Some []) = Inr ([], syns)) \<and>
   map_sum id (\<lambda>r. map (\<lambda>s. info_dataset (syn_info s)) (snd (snd r)))
     (extract_from_bundle_by_time binary True True (Some []) True)
     = Inr [''protomesh'', ''protomesh'', ''pbmesh'', ''pbmesh'']"
proof -
  have h: "\<forall>d. b_exptime binary d \<noteq> None \<and> b_fti_method binary d \<noteq> None \<and> b_fti_oversample binary d \<noteq> None"
    by (simp add: binary_def)
  have e: "map_sum id (\<lambda>r. map (\<lambda>s. info_dataset (syn_info s)) (snd (snd r)))
     (extract_from_bundle_by_time binary True True (Some []) True)
     = Inr [''protomesh'', ''protomesh'', ''pbmesh'', ''pbmesh'']"
    by code_simp
  from empty_override_plans_nothing [of binary True True True] h e show ?thesis by blast
qed

subsection \<open>The luminosity scales\<close>

lemma first_pass_result:
  assumes "\<forall>c \<in> set ms. c \<noteq> ''_default'' \<longrightarrow> b_pblum_ref b c d \<noteq> None"
    and "distinct (map fst al)"
  shows "\<exists>st' al'. fold_err (pblum_first_pass b cmp d) ms (st, al) = Inr (st', al') \<and>
    distinct (map fst al') \<and>
    (\<forall>c. st' c = (if c \<in> set ms \<and> c \<noteq> ''_default'' \<and> b_pblum_ref b c d = Some ''self''
                   then Some (cmp c d) else st c)) \<and>
    (\<forall>c. map_of al' c = (if c \<in> set ms \<and> c \<noteq> ''_default'' \<and> b_pblum_ref b c d \<noteq> Some ''self''
                   then b_pblum_ref b c d else map_of al c))"
  using assms
proof (induction ms arbitrary: st al)
  case Nil
  then show ?case by simp
next
  case (Cons m ms)
  have pre: "\<forall>c \<in> set ms. c \<noteq> ''_default'' \<longrightarrow> b_pblum_ref b c d \<noteq> None"
    using Cons.prems(1) by simp
  show ?case
  proof (cases "m = ''_default''")
    case True
    have step: "pblum_first_pass b cmp d m (st, al) = Inr (st, al)"
      using True by (simp add: pblum_first_pass_def)
    from Cons.IH [OF pre Cons.prems(2), of st] obtain st' al' where
      ih: "fold_err (pblum_first_pass b cmp d) ms (st, al) = Inr (st', al') \<and>
        distinct (map fst al') \<and>
        (\<forall>c. st' c = (if c \<in> set ms \<and> c \<noteq> ''_default'' \<and> b_pblum_ref b c d = Some ''self''
                   then Some (cmp c d) else st c)) \<and>
        (\<forall>c. map_of al' c = (if c \<in> set ms \<and> c \<noteq> ''_default'' \<and> b_pblum_ref b c d \<noteq> Some ''self''
                   then b_pblum_ref b c d else map_of al c))"
      by blast
    show ?thesis
      apply (rule exI [of _ st'], rule exI [of _ al'])
      using ih step True by auto
  next
    case False
    with Cons.prems obtain r where r: "b_pblum_ref b m d = Some r" by auto
    show ?thesis
    proof (cases "r = ''self''")
      case True
      have step: "pblum_first_pass b cmp d m (st, al) = Inr (st(m \<mapsto> cmp m d), al)"
        using False r True by (simp add: pblum_first_pass_def get_value_def bind_err_def)
      from Cons.IH [OF pre Cons.prems(2), of "st(m \<mapsto> cmp m d)"]
      obtain st' al' where
        ih: "fold_err (pblum_first_pass b cmp d) ms (st(m \<mapsto> cmp m d), al) = Inr (st', al') \<and>
        distinct (map fst al') \<and>
        (\<forall>c. st' c = (if c \<in> set ms \<and> c \<noteq> ''_default'' \<and> b_pblum_ref b c d = Some ''self''
                   then Some (cmp c d) else (st(m \<mapsto> cmp m d)) c)) \<and>
        (\<forall>c. map_of al' c = (if c \<in> set ms \<and> c \<noteq> ''_default'' \<and> b_pblum_ref b c d \<noteq> Some ''self''
                   then b_pblum_ref b c d else map_of al c))"
        by blast
      show ?thesis
        apply (rule exI [of _ st'], rule exI [of _ al'])
        using ih step False r True by auto
    next
      case nself: False
      have step: "pblum_first_pass b cmp d m (st, al) = Inr (st, AList.update m r al)"
        using False r nself by (simp add: pblum_first_pass_def get_value_def bind_err_def)
      have d: "distinct (map fst (AList.update m r al))"
        using Cons.prems(2) by (simp add: distinct_update)
      from Cons.IH [OF pre d, of st]
      obtain st' al' where
        ih: "fold_err (pblum_first_pass b cmp d) ms (st, AList.update m r al) = Inr (st', al') \<and>
        distinct (map fst al') \<and>
        (\<forall>c. st' c = (if c \<in> set ms \<and> c \<noteq> ''_default'' \<and> b_pblum_ref b c d = Some ''self''
                   then Some (cmp c d) else st c)) \<and>
        (\<forall>c. map_of al' c = (if c \<in> set ms \<and> c \<noteq> ''_default'' \<and> b_pblum_ref b c d \<noteq> Some ''self''
                   then b_pblum_ref b c d else map_of (AList.update m r al) c))"
        by blast
      show ?thesis
        apply (rule exI [of _ st'], rule exI [of _ al'])
        using ih step False r nself by (auto simp: update_conv')
    qed
  qed
qed

lemma copy_pblum_scales_resolved:
  assumes "\<forall>(c, r) \<in> set L. r \<in> dom st \<and> r \<notin> fst ` set L"
    and "distinct (map fst L)"
  shows "\<exists>st'. copy_pblum_scales L st = Inr st' \<and>
           (\<forall>(c, r) \<in> set L. st' c = st r) \<and> (\<forall>c. c \<notin> fst ` set L \<longrightarrow> st' c = st c)"
  using assms
proof (induction L arbitrary: st)
  case Nil
  then show ?case by simp
next
  case (Cons p L)
  obtain c r where p: "p = (c, r)" by (cases p)
  from Cons.prems p obtain v where v: "st r = Some v" by auto
  have r_ne: "r \<noteq> c" using Cons.prems(1) p by auto
  have pre: "\<forall>(c', r') \<in> set L. r' \<in> dom (st(c \<mapsto> v)) \<and> r' \<notin> fst ` set L"
    using Cons.prems(1) by auto
  have dist: "distinct (map fst L)" using Cons.prems(2) by simp
  from Cons.IH [OF pre dist] obtain st' where
    st': "copy_pblum_scales L (st(c \<mapsto> v)) = Inr st' \<and>
         (\<forall>(c', r') \<in> set L. st' c' = (st(c \<mapsto> v)) r') \<and>
         (\<forall>c'. c' \<notin> fst ` set L \<longrightarrow> st' c' = (st(c \<mapsto> v)) c')"
    by blast
  have c_notin: "c \<notin> fst ` set L" using Cons.prems(2) p by auto
  have refs_ne: "\<forall>(c', r') \<in> set L. r' \<noteq> c" using Cons.prems(1) p by auto
  have "copy_pblum_scales (p # L) st = Inr st'"
    using p v st' by (simp add: get_pblum_scale_def)
  moreover have "\<forall>(c', r') \<in> set (p # L). st' c' = st r'"
  proof (clarify)
    fix c' r' assume "(c', r') \<in> set (p # L)"
    then consider "c' = c" "r' = r" | "(c', r') \<in> set L" using p by auto
    then show "st' c' = st r'"
    proof cases
      case 1
      then show ?thesis using st' c_notin v by simp
    next
      case 2
      then have "r' \<noteq> c" using refs_ne by auto
      moreover have "st' c' = (st(c \<mapsto> v)) r'" using st' 2 by blast
      ultimately show ?thesis by simp
    qed
  qed
  moreover have "\<forall>c'. c' \<notin> fst ` set (p # L) \<longrightarrow> st' c' = st c'"
    using st' p by auto
  ultimately show ?case by blast
qed

text \<open>
  C4, as stated, fails where a component refers to a component that does not compute its
  own scale. In the chain, read in the order of insertion, the primary reads the scale of
  the secondary before any step has stored it; with two stars that refer to each other
  this happens in either order.
\<close>

theorem pblum_chain_counterexample:
  "calibrate_dataset chain scale_of id ''lc01'' no_scales = Inl (UnresolvedScale ''primary'' ''secondary'') \<and>
   calibrate_dataset mutual scale_of id ''lc01'' no_scales = Inl (UnresolvedScale ''primary'' ''secondary'') \<and>
   calibrate_dataset mutual scale_of rev ''lc01'' no_scales = Inl (UnresolvedScale ''secondary'' ''primary'')"
  by (simp add: calibrate_dataset_def chain_def mutual_def binary_def pblum_first_pass_def get_value_def
      bind_err_def get_pblum_scale_def no_scales_def)

text \<open>
  C4, amended. Let every meshable component either compute its own scale or refer to a
  meshable component that computes its own. Then, in whatever order the dictionary is
  read, the calibration of a light-curve dataset returns; every component of mode self
  has the scale computed for it; and every other component has the scale computed for the
  component it refers to, which is that component's stored scale, so that no scale is
  read before it is stored.
\<close>

theorem pblum_scales_resolved:
  assumes order: "\<forall>al. mset (items al) = mset al"
    and refs: "\<forall>c \<in> set (b_meshables b). c \<noteq> ''_default'' \<longrightarrow>
        (\<exists>r. b_pblum_ref b c dataset = Some r \<and>
             (r = ''self'' \<or> (r \<in> set (b_meshables b) \<and> r \<noteq> ''_default'' \<and>
                              b_pblum_ref b r dataset = Some ''self'')))"
  shows "\<exists>st'. calibrate_dataset b compute_pblum_scale items dataset st = Inr st' \<and>
      (\<forall>c \<in> set (b_meshables b). c \<noteq> ''_default'' \<longrightarrow>
         (b_pblum_ref b c dataset = Some ''self'' \<longrightarrow> st' c = Some (compute_pblum_scale c dataset)) \<and>
         (\<forall>r. b_pblum_ref b c dataset = Some r \<and> r \<noteq> ''self'' \<longrightarrow>
              st' c = Some (compute_pblum_scale r dataset) \<and> st' c = st' r))"
proof -
  let ?ms = "b_meshables b"
  have defined: "\<forall>c \<in> set ?ms. c \<noteq> ''_default'' \<longrightarrow> b_pblum_ref b c dataset \<noteq> None"
    using refs by auto
  have "distinct (map fst ([] :: (string \<times> string) list))" by simp
  from first_pass_result [OF defined this, of compute_pblum_scale st]
  obtain st1 al where
    all: "fold_err (pblum_first_pass b compute_pblum_scale dataset) ?ms (st, []) = Inr (st1, al) \<and>
      distinct (map fst al) \<and>
      (\<forall>c. st1 c = (if c \<in> set ?ms \<and> c \<noteq> ''_default'' \<and> b_pblum_ref b c dataset = Some ''self''
                   then Some (compute_pblum_scale c dataset) else st c)) \<and>
      (\<forall>c. map_of al c = (if c \<in> set ?ms \<and> c \<noteq> ''_default'' \<and> b_pblum_ref b c dataset \<noteq> Some ''self''
                   then b_pblum_ref b c dataset else map_of [] c))"
    by blast
  then have fp: "fold_err (pblum_first_pass b compute_pblum_scale dataset) ?ms (st, []) = Inr (st1, al)"
    and dist: "distinct (map fst al)"
    and st1: "\<forall>c. st1 c = (if c \<in> set ?ms \<and> c \<noteq> ''_default'' \<and> b_pblum_ref b c dataset = Some ''self''
                   then Some (compute_pblum_scale c dataset) else st c)"
    and al: "\<forall>c. map_of al c = (if c \<in> set ?ms \<and> c \<noteq> ''_default'' \<and> b_pblum_ref b c dataset \<noteq> Some ''self''
                   then b_pblum_ref b c dataset else None)"
    by simp_all
  let ?L = "items al"
  have mL: "mset ?L = mset al" using order by simp
  then have setL: "set ?L = set al" by (rule mset_eq_setD)
  have "mset (map fst ?L) = mset (map fst al)" using mL by simp
  then have distL: "distinct (map fst ?L)" using dist by (metis distinct_count_atmost_1 set_mset_mset)
  have entry: "(c, r) \<in> set ?L \<longleftrightarrow> c \<in> set ?ms \<and> c \<noteq> ''_default'' \<and> b_pblum_ref b c dataset = Some r \<and> r \<noteq> ''self''" for c r
  proof -
    have "(c, r) \<in> set al \<longleftrightarrow> map_of al c = Some r" using dist by simp
    then show ?thesis using al setL by auto
  qed
  have pre: "\<forall>(c, r) \<in> set ?L. r \<in> dom st1 \<and> r \<notin> fst ` set ?L"
  proof (clarify)
    fix c r assume cr: "(c, r) \<in> set ?L"
    then have c: "c \<in> set ?ms" "c \<noteq> ''_default''" "b_pblum_ref b c dataset = Some r" "r \<noteq> ''self''"
      using entry by auto
    with refs have r: "r \<in> set ?ms" "r \<noteq> ''_default''" "b_pblum_ref b r dataset = Some ''self''"
      by auto
    then have "r \<in> dom st1" using st1 by auto
    moreover have "r \<notin> fst ` set ?L" using entry r by auto
    ultimately show "r \<in> dom st1 \<and> r \<notin> fst ` set ?L" by simp
  qed
  from copy_pblum_scales_resolved [OF pre distL] obtain st' where
    all': "copy_pblum_scales ?L st1 = Inr st' \<and>
      (\<forall>(c, r) \<in> set ?L. st' c = st1 r) \<and> (\<forall>c. c \<notin> fst ` set ?L \<longrightarrow> st' c = st1 c)"
    by blast
  then have cp: "copy_pblum_scales ?L st1 = Inr st'"
    and copied: "\<forall>(c, r) \<in> set ?L. st' c = st1 r"
    and kept: "\<forall>c. c \<notin> fst ` set ?L \<longrightarrow> st' c = st1 c"
    by simp_all
  have res: "calibrate_dataset b compute_pblum_scale items dataset st = Inr st'"
    using fp cp by (simp add: calibrate_dataset_def)
  have self: "st' c = Some (compute_pblum_scale c dataset)"
    if "c \<in> set ?ms" "c \<noteq> ''_default''" "b_pblum_ref b c dataset = Some ''self''" for c
  proof -
    have "c \<notin> fst ` set ?L" using entry that by auto
    then show ?thesis using kept st1 that by auto
  qed
  have copy: "st' c = Some (compute_pblum_scale r dataset) \<and> st' c = st' r"
    if "c \<in> set ?ms" "c \<noteq> ''_default''" "b_pblum_ref b c dataset = Some r" "r \<noteq> ''self''" for c r
  proof -
    from that refs have r: "r \<in> set ?ms" "r \<noteq> ''_default''" "b_pblum_ref b r dataset = Some ''self''"
      by auto
    have "(c, r) \<in> set ?L" using entry that by auto
    then have "st' c = st1 r" using copied by auto
    moreover have "st1 r = Some (compute_pblum_scale r dataset)" using st1 r by auto
    moreover have "st' r = Some (compute_pblum_scale r dataset)" using self r by auto
    ultimately show ?thesis by simp
  qed
  show ?thesis using res self copy by blast
qed

text \<open>
  The amended C4 on two stars: the primary refers to the secondary, the secondary
  computes its own scale 3, and both end with 3.
\<close>

theorem pblum_scales_resolved_witness:
  "\<exists>st'. calibrate_dataset copying scale_of id ''lc01'' no_scales = Inr st' \<and>
         st' ''secondary'' = Some 3 \<and> st' ''primary'' = Some 3 \<and> st' ''primary'' = st' ''secondary''"
proof -
  have o: "\<forall>al :: (string \<times> string) list. mset (id al) = mset al" by simp
  have r: "\<forall>c \<in> set (b_meshables copying). c \<noteq> ''_default'' \<longrightarrow>
        (\<exists>r. b_pblum_ref copying c ''lc01'' = Some r \<and>
             (r = ''self'' \<or> (r \<in> set (b_meshables copying) \<and> r \<noteq> ''_default'' \<and>
                              b_pblum_ref copying r ''lc01'' = Some ''self'')))"
    by (simp add: copying_def binary_def)
  from pblum_scales_resolved [OF o r, of scale_of no_scales] obtain st' where
    st': "calibrate_dataset copying scale_of id ''lc01'' no_scales = Inr st'"
    and all: "\<forall>c \<in> set (b_meshables copying). c \<noteq> ''_default'' \<longrightarrow>
         (b_pblum_ref copying c ''lc01'' = Some ''self'' \<longrightarrow> st' c = Some (scale_of c ''lc01'')) \<and>
         (\<forall>r. b_pblum_ref copying c ''lc01'' = Some r \<and> r \<noteq> ''self'' \<longrightarrow>
              st' c = Some (scale_of r ''lc01'') \<and> st' c = st' r)"
    by blast
  from all have "st' ''secondary'' = Some 3" "st' ''primary'' = Some 3" "st' ''primary'' = st' ''secondary''"
    by (simp_all add: copying_def binary_def scale_of_def)
  with st' show ?thesis by blast
qed

subsection \<open>The dispatch on the kind\<close>

lemma fill_info_unsupported:
  assumes "info_kind info \<notin> set [''mesh'', ''rv'', ''lc'', ''etv'', ''ifm'', ''orb'']"
  shows "fill_info x do_horizon time infolist info this_syn =
           Inl (NotImplementedError (''kind '' @ info_kind info @ '' not yet supported by this backend''))"
  using assms by (simp add: fill_info_def Let_def)

text \<open>
  The kind sp is selected with the mesh in line 666, but the dispatch has no branch for it:
  it is refused like an unknown kind.
\<close>

lemma fill_info_sp:
  "info_kind info = ''sp'' \<Longrightarrow>
   fill_info x do_horizon time infolist info this_syn =
     Inl (NotImplementedError ''kind sp not yet supported by this backend'')"
  by (simp add: fill_info_unsupported)

text \<open>
  C7. A work item whose kind is none of mesh, sp, rv, lc, etv, ifm and orb is refused with
  a \<^verbatim>\<open>NotImplementedError\<close> whose message names the kind; and a time step whose
  work items before this one are filled without error ends with that error, so the item
  is not skipped.
\<close>

theorem unsupported_kind_not_implemented:
  assumes "info_kind info \<notin> set [''mesh'', ''sp'', ''rv'', ''lc'', ''etv'', ''ifm'', ''orb'']"
    and "infolist = pre @ info # post"
    and "fold_err (fill_step_info x do_horizon time infolist) pre new_syns = Inr syns"
  shows "fill_info x do_horizon time infolist info this_syn =
           Inl (NotImplementedError (''kind '' @ info_kind info @ '' not yet supported by this backend''))
       \<and> fill_step x do_horizon time infolist new_syns =
           Inl (NotImplementedError (''kind '' @ info_kind info @ '' not yet supported by this backend''))"
proof -
  have a: "fill_info x do_horizon time infolist info c =
           Inl (NotImplementedError (''kind '' @ info_kind info @ '' not yet supported by this backend''))" for c
    using assms(1) by (simp add: fill_info_unsupported)
  have "fill_step x do_horizon time infolist new_syns =
          fold_err (fill_step_info x do_horizon time infolist) (pre @ info # post) new_syns"
    using assms(2) by (simp add: fill_step_def)
  also have "\<dots> = Inl (NotImplementedError (''kind '' @ info_kind info @ '' not yet supported by this backend''))"
    using assms(3) by (simp add: fold_err_append bind_err_def fill_step_info_def a)
  finally show ?thesis using a by simp
qed

text \<open>
  C7 on a step with a light curve, an item of the kind sed, and a mesh.
\<close>

theorem unsupported_kind_not_implemented_witness:
  "info_kind sed_item \<notin> set [''mesh'', ''sp'', ''rv'', ''lc'', ''etv'', ''ifm'', ''orb''] \<and>
   [lc_item, sed_item, mesh_item] = [lc_item] @ sed_item # [mesh_item] \<and>
   (\<exists>syns. fold_err (fill_step_info (star_services ''roche'' ''marching'') True 0 [lc_item, sed_item, mesh_item])
      [lc_item] (\<lambda>k q. []) = Inr syns) \<and>
   fill_info (star_services ''roche'' ''marching'') True 0 [lc_item, sed_item, mesh_item] sed_item (\<lambda>q. []) =
     Inl (NotImplementedError ''kind sed not yet supported by this backend'') \<and>
   fill_step (star_services ''roche'' ''marching'') True 0 [lc_item, sed_item, mesh_item] (\<lambda>k q. []) =
     Inl (NotImplementedError ''kind sed not yet supported by this backend'')"
proof -
  have k: "info_kind sed_item \<notin> set [''mesh'', ''sp'', ''rv'', ''lc'', ''etv'', ''ifm'', ''orb'']"
    by (simp add: sed_item_def)
  have l: "[lc_item, sed_item, mesh_item] = [lc_item] @ sed_item # [mesh_item]" by simp
  obtain syns where p: "fold_err (fill_step_info (star_services ''roche'' ''marching'') True 0 [lc_item, sed_item, mesh_item])
      [lc_item] (\<lambda>k q. []) = Inr syns"
    by (simp add: fill_step_info_def fill_info_def lc_item_def bind_err_def)
  from unsupported_kind_not_implemented [OF k l p, of "\<lambda>q. []"] k l p
  show ?thesis by (auto simp: sed_item_def)
qed

subsection \<open>The analytic horizon\<close>






subsection \<open>The protomesh of the legacy engine\<close>

text \<open>
  C9 on one quadrant point. The y coordinate 2 of the primary is expanded with the signs
  of the z axis, not with those of the y axis, which would give 2, 2, -2, -2, 2, 2, -2,
  -2; and the temperature 5000, which is no coordinate, is negated on the second half as
  well. Both are what \<open>fill_mesh\<close> stores.
\<close>

theorem protomesh_sign_pattern:
  "protomesh_key_val ''vcy1'' [2] = [2, 2, 2, 2, - 2, - 2, - 2, - 2] \<and>
   expand8 signs_y [2] = [2, 2, - 2, - 2, 2, 2, - 2, - 2] \<and>
   stored (fill_mesh quadrant ''protomesh'' ''lc01'' [] (protomesh_syns, []))
     (''primary'', ''protomesh'', ''ys'', None) = Some [2, 2, 2, 2, - 2, - 2, - 2, - 2] \<and>
   protomesh_key_val ''tloc1'' [5000] = [5000, 5000, 5000, 5000, - 5000, - 5000, - 5000, - 5000] \<and>
   stored (fill_mesh quadrant ''protomesh'' ''lc01'' [] (protomesh_syns, []))
     (''primary'', ''protomesh'', ''teffs'', None)
     = Some [5000, 5000, 5000, 5000, - 5000, - 5000, - 5000, - 5000]"
  by (simp add: stored_def fill_mesh_def quadrant_def grtot_of_def mesh_get_def bind_err_def ret_dict_def
      digit_of_def fill_protomesh_key_def protomesh_key_val_def truthy_def expand8_def signs_y_def
      signs_z_def signs_none_def set_value_or_warn_def protomesh_syns_def p2to1_def)

end
